theory Spec2Isabelle
  imports Complex_Main "HOL-Library.Word"
begin

section \<open>JavaScript strings\<close>

text \<open>
  A JavaScript string is a sequence of UTF-16 code units. The regular expressions of
  \<^verbatim>\<open>src/server.ts\<close> carry no \<^verbatim>\<open>u\<close> flag, so they work on code units too.
  \<open>lit\<close> writes an ASCII literal of the source as such a sequence.
\<close>

type_synonym js_char = "16 word"
type_synonym js_string = "js_char list"

definition lit :: "string \<Rightarrow> js_string" where
  "lit s = map of_char s"

text \<open>
  The class \<^verbatim>\<open>\s\<close> of a JavaScript regular expression, which is also what
  \<^verbatim>\<open>String.prototype.trim\<close> removes: WhiteSpace and LineTerminator of ECMAScript
  (TAB, LF, VT, FF, CR, SP, NBSP, U+1680, U+2000 to U+200A, U+2028, U+2029, U+202F, U+205F,
  U+3000, U+FEFF).
\<close>

definition is_space :: "js_char \<Rightarrow> bool" where
  "is_space c \<longleftrightarrow>
     c = 0x0009 \<or> c = 0x000A \<or> c = 0x000B \<or> c = 0x000C \<or> c = 0x000D \<or>
     c = 0x0020 \<or> c = 0x00A0 \<or> c = 0x1680 \<or> (0x2000 \<le> c \<and> c \<le> 0x200A) \<or>
     c = 0x2028 \<or> c = 0x2029 \<or> c = 0x202F \<or> c = 0x205F \<or> c = 0x3000 \<or>
     c = 0xFEFF"

text \<open>\<^verbatim>\<open>s.trim()\<close>\<close>

definition trim :: "js_string \<Rightarrow> js_string" where
  "trim s = rev (dropWhile is_space (rev (dropWhile is_space s)))"

text \<open>
  \<^verbatim>\<open>s.split(/\s+/)\<close>: the pieces between the maximal runs of whitespace. A run at the
  start or at the end of the string leaves an empty piece there, and the empty string
  splits into one empty piece.
\<close>

function split_ws :: "js_string \<Rightarrow> js_string list" where
  "split_ws s =
     (let w = takeWhile (\<lambda>c. \<not> is_space c) s;
          r = dropWhile (\<lambda>c. \<not> is_space c) s
      in if r = [] then [w] else w # split_ws (dropWhile is_space r))"
  by pat_completeness auto
termination
proof (relation "measure length")
  show "wf (measure length)" by simp
next
  fix s :: js_string and w r
  assume r: "r = dropWhile (\<lambda>c. \<not> is_space c) s" and ne: "r \<noteq> []"
  from ne obtain c cs where rc: "r = c # cs" by (cases r) auto
  from ne r have "dropWhile (\<lambda>c. \<not> is_space c) s \<noteq> []" by simp
  from hd_dropWhile[OF this] have "is_space (hd r)" unfolding r by simp
  then have "is_space c" unfolding rc by simp
  then have "length (dropWhile is_space r) \<le> length cs"
    by (simp add: rc length_dropWhile_le)
  moreover have "length r \<le> length s" by (simp add: r length_dropWhile_le)
  ultimately show "(dropWhile is_space r, s) \<in> measure length" by (simp add: rc)
qed

declare split_ws.simps [simp del]

text \<open>\<^verbatim>\<open>xs.join(sep)\<close> on an array of strings.\<close>

fun join :: "js_string \<Rightarrow> js_string list \<Rightarrow> js_string" where
  "join sep [] = []"
| "join sep [x] = x"
| "join sep (x # y # ys) = x @ sep @ join sep (y # ys)"

text \<open>
  \<^verbatim>\<open>xs.slice(start, end)\<close> with integer arguments: a negative index counts from the
  end, every index is clamped to the array, and a missing \<open>end\<close> is the length.
\<close>

definition rel_index :: "int \<Rightarrow> nat \<Rightarrow> nat" where
  "rel_index k len = (if k < 0 then nat (max (int len + k) 0) else min (nat k) len)"

definition array_slice :: "int \<Rightarrow> int option \<Rightarrow> 'a list \<Rightarrow> 'a list" where
  "array_slice start end xs =
     (let len = length xs;
          k = rel_index start len;
          final = (case end of None \<Rightarrow> len | Some e \<Rightarrow> rel_index e len)
      in take (final - k) (drop k xs))"

text \<open>\<^verbatim>\<open>s.includes(needle)\<close> and a literal prefix test.\<close>

fun str_includes :: "js_string \<Rightarrow> js_string \<Rightarrow> bool" where
  "str_includes [] needle = (needle = [])"
| "str_includes (c # cs) needle =
     (take (length needle) (c # cs) = needle \<or> str_includes cs needle)"

definition starts_with :: "js_string \<Rightarrow> js_string \<Rightarrow> bool" where
  "starts_with p s = (take (length p) s = p)"


section \<open>chunkByWords (server.ts, lines 16 to 25)\<close>

text \<open>
  \<^verbatim>\<open>text.split(/\s+/).filter(Boolean)\<close>: the non-empty pieces.
\<close>

definition words_of :: "js_string \<Rightarrow> js_string list" where
  "words_of text = filter (\<lambda>w. w \<noteq> []) (split_ws text)"

text \<open>
  The \<^verbatim>\<open>for\<close> loop, with \<open>i\<close> and \<open>chunks\<close> as its state. \<open>wordsPerChunk\<close> is a
  natural number here; with \<open>wordsPerChunk = 0\<close> and at least one word the loop of the source
  never ends, and \<open>chunk_loop\<close> is \<open>None\<close>.
\<close>

partial_function (option) chunk_loop ::
  "js_string list \<Rightarrow> nat \<Rightarrow> nat \<Rightarrow> js_string list \<Rightarrow> js_string list option" where
  "chunk_loop words wordsPerChunk i chunks =
     (if i < length words
      then chunk_loop words wordsPerChunk (i + wordsPerChunk)
             (chunks @ [join (lit '' '')
                          (array_slice (int i) (Some (int (i + wordsPerChunk))) words)
                        @ lit '' ''])
      else Some chunks)"

declare chunk_loop.simps [code]

definition chunkByWords :: "js_string \<Rightarrow> nat \<Rightarrow> js_string list option" where
  "chunkByWords text wordsPerChunk =
     (case chunk_loop (words_of text) wordsPerChunk 0 [] of
        None \<Rightarrow> None
      | Some chunks \<Rightarrow> Some (if chunks \<noteq> [] then chunks else [text]))"


section \<open>JavaScript values\<close>

text \<open>
  What \<^verbatim>\<open>JSON.parse\<close> and the model binding return has the type \<^verbatim>\<open>any\<close>: plain data.
  Of a number the handler only looks at its truthiness.
\<close>

datatype js_number = NaN | Infinite bool | Finite rat

datatype js_value =
    JUndefined
  | JNull
  | JBool bool
  | JNumber js_number
  | JString js_string
  | JArray "js_value list"
  | JObject "(js_string \<times> js_value) list"

fun truthy :: "js_value \<Rightarrow> bool" where
  "truthy JUndefined = False"
| "truthy JNull = False"
| "truthy (JBool b) = b"
| "truthy (JNumber n) = (n \<noteq> NaN \<and> n \<noteq> Finite 0)"
| "truthy (JString s) = (s \<noteq> [])"
| "truthy (JArray xs) = True"
| "truthy (JObject kvs) = True"

text \<open>
  Property access \<^verbatim>\<open>v?.k\<close>, for the keys the handler reads (\<open>type\<close>, \<open>content\<close>,
  \<open>imageDataUrl\<close>, \<open>response\<close>, \<open>result\<close>, \<open>output_text\<close>, \<open>description\<close>): none of them is
  a property of a primitive or of an array, so only an object can have one.
\<close>

fun get_prop :: "js_value \<Rightarrow> js_string \<Rightarrow> js_value" where
  "get_prop (JObject kvs) k = (case map_of kvs k of Some v \<Rightarrow> v | None \<Rightarrow> JUndefined)"
| "get_prop v k = JUndefined"

text \<open>The operators \<^verbatim>\<open>||\<close>, \<^verbatim>\<open>&&\<close> and \<^verbatim>\<open>??\<close>.\<close>

definition js_or :: "js_value \<Rightarrow> js_value \<Rightarrow> js_value" where
  "js_or a b = (if truthy a then a else b)"

definition js_and :: "js_value \<Rightarrow> js_value \<Rightarrow> js_value" where
  "js_and a b = (if truthy a then b else a)"

definition js_nullish :: "js_value \<Rightarrow> js_value \<Rightarrow> js_value" where
  "js_nullish a b = (if a = JUndefined \<or> a = JNull then b else a)"

text \<open>
  The built-in functions of the JavaScript runtime that the handler calls are parameters
  of the model: \<^verbatim>\<open>JSON.parse\<close> (\<open>None\<close> when it throws), \<^verbatim>\<open>JSON.stringify\<close> and the
  conversion \<^verbatim>\<open>String(v)\<close> of a value that is not a string.
\<close>

record runtime =
  JSON_parse :: "js_string \<Rightarrow> js_value option"
  JSON_stringify :: "js_value \<Rightarrow> js_value"
  ToString :: "js_value \<Rightarrow> js_string"

definition js_String :: "runtime \<Rightarrow> js_value \<Rightarrow> js_string" where
  "js_String rt v = (case v of JString s \<Rightarrow> s | _ \<Rightarrow> ToString rt v)"


section \<open>Data model (server.ts, lines 3 to 10)\<close>

datatype role = User | Assistant

record ChatMessage =
  role :: role
  content :: js_string
  imageDataUrl :: "js_string option"

record ChatState =
  messages :: "ChatMessage list"

definition TEXT_MODEL :: js_string where
  "TEXT_MODEL = lit ''@cf/meta/llama-3.3-70b-instruct-fp8-fast''"

definition VISION_MODEL :: js_string where
  "VISION_MODEL = lit ''@cf/meta/llama-3.2-11b-vision-instruct''"

definition VISION_FALLBACK_MODEL :: js_string where
  "VISION_FALLBACK_MODEL = lit ''@cf/llava-hf/llava-1.5-7b-hf''"

definition initialState :: ChatState where
  "initialState = \<lparr>messages = []\<rparr>"

text \<open>
  \<open>isImageDataUrl\<close> (lines 27 to 29): a string that starts with \<^verbatim>\<open>data:image/\<close>, then one
  or more characters of \<^verbatim>\<open>[a-zA-Z0-9.+-]\<close>, then \<^verbatim>\<open>;base64,\<close>. The semicolon is not in
  the class, so the match takes the longest run of class characters.
\<close>

definition is_mime_char :: "js_char \<Rightarrow> bool" where
  "is_mime_char c \<longleftrightarrow>
     (0x61 \<le> c \<and> c \<le> 0x7A) \<or> (0x41 \<le> c \<and> c \<le> 0x5A) \<or> (0x30 \<le> c \<and> c \<le> 0x39) \<or>
     c = 0x2E \<or> c = 0x2B \<or> c = 0x2D"

definition isImageDataUrl :: "js_value \<Rightarrow> bool" where
  "isImageDataUrl v =
     (case v of
        JString s \<Rightarrow>
          starts_with (lit ''data:image/'') s \<and>
          (let r = drop (length (lit ''data:image/'')) s
           in takeWhile is_mime_char r \<noteq> [] \<and>
              starts_with (lit '';base64,'') (dropWhile is_mime_char r))
      | _ \<Rightarrow> False)"


section \<open>Requests to the model binding\<close>

text \<open>
  The objects handed to \<^verbatim>\<open>env.AI.run\<close>: a chat request (a list of messages, each with
  a plain text or a text part and an image part, and \<open>max_tokens\<close>) or the prompt request of
  the fallback model (\<open>prompt\<close> and \<open>image\<close>).
\<close>

datatype ai_role = SystemRole | ChatRole role

datatype ai_part = TextPart js_string | ImageUrlPart js_string

datatype ai_content = Plain js_string | Parts "ai_part list"

record ai_message =
  msg_role :: ai_role
  msg_content :: ai_content

datatype ai_request =
    ChatRequest "ai_message list" nat
  | PromptRequest js_string js_string

text \<open>
  What a call of the binding throws: an \<open>Error\<close> object with its message, or any other
  value. A call returns a value or throws; the binding is a parameter of the handler.
\<close>

datatype js_exn = ErrorObj js_string | Thrown js_value

type_synonym ai_binding = "js_string \<Rightarrow> ai_request \<Rightarrow> js_exn + js_value"

text \<open>\<open>toAiMessage\<close> (lines 31 to 43) and \<open>toTextOnlyMessage\<close> (lines 45 to 47).\<close>

definition toAiMessage :: "ChatMessage \<Rightarrow> ai_message" where
  "toAiMessage message =
     (case imageDataUrl message of
        Some url \<Rightarrow>
          if role message = User \<and> url \<noteq> []
          then \<lparr>msg_role = ChatRole User,
                msg_content = Parts
                  [TextPart (if content message \<noteq> [] then content message
                             else lit ''Please describe this image.''),
                   ImageUrlPart url]\<rparr>
          else \<lparr>msg_role = ChatRole (role message), msg_content = Plain (content message)\<rparr>
      | None \<Rightarrow> \<lparr>msg_role = ChatRole (role message), msg_content = Plain (content message)\<rparr>)"

definition toTextOnlyMessage :: "ChatMessage \<Rightarrow> ai_message" where
  "toTextOnlyMessage message =
     \<lparr>msg_role = ChatRole (role message), msg_content = Plain (content message)\<rparr>"


section \<open>Effects of a handler\<close>

text \<open>
  The objects that the handler serialises and sends on the connection, and the log of what
  a handler does, in order: \<^verbatim>\<open>this.setState\<close>, \<^verbatim>\<open>connection.send\<close>, a call of
  \<^verbatim>\<open>env.AI.run\<close> and \<^verbatim>\<open>await sleep(ms)\<close>.
\<close>

datatype server_msg =
    History "ChatMessage list"
  | AssistantStart
  | AssistantChunk js_string
  | AssistantDone js_string
  | AssistantMsg js_string

datatype effect =
    SetState ChatState
  | Send server_msg
  | AiRun js_string ai_request
  | Sleep nat

text \<open>The persisted state after a log: the argument of the last \<open>setState\<close>.\<close>

fun final_state :: "ChatState \<Rightarrow> effect list \<Rightarrow> ChatState" where
  "final_state st [] = st"
| "final_state st (SetState st' # es) = final_state st' es"
| "final_state st (e # es) = final_state st es"

definition sent :: "effect list \<Rightarrow> server_msg list" where
  "sent es = concat (map (\<lambda>e. case e of Send m \<Rightarrow> [m] | _ \<Rightarrow> []) es)"

definition ai_calls :: "effect list \<Rightarrow> (js_string \<times> ai_request) list" where
  "ai_calls es = concat (map (\<lambda>e. case e of AiRun m r \<Rightarrow> [(m, r)] | _ \<Rightarrow> []) es)"


section \<open>ChatAgent (server.ts, lines 49 to 169)\<close>

text \<open>\<open>onConnect\<close> (lines 52 to 54).\<close>

definition onConnect :: "ChatState \<Rightarrow> effect list" where
  "onConnect st = [Send (History (array_slice (- 50) None (messages st)))]"

definition system_prompt :: js_string where
  "system_prompt = join (lit '' '')
     [lit ''You are a helpful assistant running on Cloudflare.'',
      lit ''Be concise, actionable, and friendly.'',
      lit ''If you do not know something, say so and suggest next steps.'']"

definition license_hint :: js_string where
  "license_hint = lit ''submit the prompt 'agree'' @ [0x27]"

definition license_failure_text :: js_string where
  "license_failure_text =
     lit ''Image analysis is currently unavailable for this account. For Llama 3.2 vision, run one prompt with text 'agree' in Workers AI to accept the license, then try again.''"

definition generic_failure_text :: js_string where
  "generic_failure_text = lit ''I hit an AI error. Please try again in a moment.''"

text \<open>
  \<open>onMessage\<close> is an \<^verbatim>\<open>async\<close> function: it runs up to its first \<^verbatim>\<open>await\<close>, the call of
  the model at line 95, and is resumed with the outcome of that call; other handlers of the
  same agent may run in between. The model has the two parts. What the second part reads is
  the local variables of the first, kept in a \<open>frame\<close>; it does not read \<^verbatim>\<open>this.state\<close>.
\<close>

record frame =
  nextMessages :: "ChatMessage list"
  userText :: js_string
  imageUrl :: "js_string option"
  model :: js_string
  request :: ai_request

text \<open>
  The truthiness of the local \<open>imageDataUrl\<close>, a string or \<^verbatim>\<open>undefined\<close>
  (lines 74, 95, 96 and 107).
\<close>

definition attached :: "js_string option \<Rightarrow> bool" where
  "attached u = (case u of None \<Rightarrow> False | Some url \<Rightarrow> url \<noteq> [])"

text \<open>
  Lines 56 to 98: parse, the \<open>reset\<close> branch, validation, the user turn, \<open>setState\<close>, the
  context of the last 12 turns and the call of the selected model.
\<close>

definition onMessage_begin :: "runtime \<Rightarrow> ChatState \<Rightarrow> js_string \<Rightarrow> effect list \<times> frame option" where
  "onMessage_begin rt st message =
     (case JSON_parse rt message of
        None \<Rightarrow> ([], None)
      | Some payload \<Rightarrow>
          if get_prop payload (lit ''type'') = JString (lit ''reset'')
          then ([SetState \<lparr>messages = []\<rparr>, Send (History [])], None)
          else if get_prop payload (lit ''type'') \<noteq> JString (lit ''user'') then ([], None)
          else (case get_prop payload (lit ''content'') of
                  JString c \<Rightarrow>
                    (let userText = trim c;
                         imageDataUrl =
                           (case get_prop payload (lit ''imageDataUrl'') of
                              JString url \<Rightarrow>
                                if isImageDataUrl (JString url) then Some url else None
                            | _ \<Rightarrow> None)
                     in if userText = [] \<and> \<not> attached imageDataUrl
                        then ([], None)
                        else
                          (let userMessage =
                                 \<lparr>role = User,
                                  content = (if userText \<noteq> [] then userText
                                             else lit ''Describe this image.''),
                                  imageDataUrl = imageDataUrl\<rparr>;
                               nextMessages = messages st @ [userMessage];
                               context = array_slice (- 12) None nextMessages;
                               visionContext = map toAiMessage context;
                               textContext = map toTextOnlyMessage context;
                               model = (if attached imageDataUrl then VISION_MODEL else TEXT_MODEL);
                               request = ChatRequest
                                 (\<lparr>msg_role = SystemRole, msg_content = Plain system_prompt\<rparr> #
                                  (if attached imageDataUrl then visionContext else textContext)) 512
                           in ([SetState \<lparr>messages = nextMessages\<rparr>, AiRun model request],
                               Some \<lparr>nextMessages = nextMessages, userText = userText,
                                     imageUrl = imageDataUrl, model = model, request = request\<rparr>)))
                | _ \<Rightarrow> ([], None)))"

text \<open>The reply text of a response of the primary model (lines 100 to 102).\<close>

definition extract_reply :: "runtime \<Rightarrow> js_value \<Rightarrow> js_value" where
  "extract_reply rt aiResp =
     js_nullish
       (js_and aiResp
          (js_or (js_or (get_prop aiResp (lit ''response'')) (get_prop aiResp (lit ''result'')))
                 (get_prop aiResp (lit ''output_text''))))
       (case aiResp of JString s \<Rightarrow> aiResp | _ \<Rightarrow> JSON_stringify rt aiResp)"

text \<open>The reply text of a response of the fallback model (lines 113 to 119).\<close>

definition extract_fallback_reply :: "runtime \<Rightarrow> js_value \<Rightarrow> js_value" where
  "extract_fallback_reply rt fallbackResp =
     js_nullish
       (js_and fallbackResp
          (js_or (js_or (js_or (get_prop fallbackResp (lit ''response''))
                               (get_prop fallbackResp (lit ''result'')))
                        (get_prop fallbackResp (lit ''output_text'')))
                 (get_prop fallbackResp (lit ''description''))))
       (case fallbackResp of JString s \<Rightarrow> fallbackResp | _ \<Rightarrow> JSON_stringify rt fallbackResp)"

text \<open>
  Lines 156 to 167: the assistant turn is appended to the captured \<open>nextMessages\<close> and
  persisted, then the reply is streamed: a start marker, the chunks with a pause of 24 ms
  after each, the done marker and the plain assistant message.
\<close>

definition deliver :: "runtime \<Rightarrow> frame \<Rightarrow> js_value \<Rightarrow> effect list option" where
  "deliver rt f assistantText =
     (let finalText = js_String rt assistantText;
          full = nextMessages f @ [\<lparr>role = Assistant, content = finalText, imageDataUrl = None\<rparr>]
      in case chunkByWords finalText 3 of
           None \<Rightarrow> None
         | Some chunks \<Rightarrow>
             Some ([SetState \<lparr>messages = full\<rparr>, Send AssistantStart] @
                   concat (map (\<lambda>chunk. [Send (AssistantChunk chunk), Sleep 24]) chunks) @
                   [Send (AssistantDone finalText), Send (AssistantMsg finalText)]))"

text \<open>Line 104: \<^verbatim>\<open>err instanceof Error ? err.message : String(err)\<close>.\<close>

definition error_message :: "runtime \<Rightarrow> js_exn \<Rightarrow> js_string" where
  "error_message rt err = (case err of ErrorObj m \<Rightarrow> m | Thrown v \<Rightarrow> js_String rt v)"

text \<open>The prompt of the fallback request (line 110).\<close>

definition fallback_prompt :: "js_string \<Rightarrow> js_string" where
  "fallback_prompt txt =
     system_prompt @ [0x0A, 0x0A] @ lit ''User request: '' @
     (if txt \<noteq> [] then txt else lit ''Describe this image.'')"

text \<open>
  Lines 99 to 168, from the outcome of the call of line 95: the reply on success; in the
  \<open>catch\<close>, the fallback model when an image is attached and the error message has the
  license hint, and the fixed failure messages.
\<close>

definition onMessage_resume :: "runtime \<Rightarrow> ai_binding \<Rightarrow> frame \<Rightarrow> effect list option" where
  "onMessage_resume rt ai f =
     (case ai (model f) (request f) of
        Inr aiResp \<Rightarrow> deliver rt f (extract_reply rt aiResp)
      | Inl err \<Rightarrow>
          (let msg = error_message rt err
           in case imageUrl f of
                Some url \<Rightarrow>
                  if url \<noteq> [] \<and> str_includes msg license_hint
                  then
                    (let fallback = PromptRequest (fallback_prompt (userText f)) url
                     in case ai VISION_FALLBACK_MODEL fallback of
                          Inr fallbackResp \<Rightarrow>
                            map_option ((#) (AiRun VISION_FALLBACK_MODEL fallback))
                              (deliver rt f (extract_fallback_reply rt fallbackResp))
                        | Inl err2 \<Rightarrow>
                            Some [AiRun VISION_FALLBACK_MODEL fallback,
                                  Send (AssistantDone license_failure_text),
                                  Send (AssistantMsg license_failure_text)])
                  else Some [Send (AssistantDone generic_failure_text),
                             Send (AssistantMsg generic_failure_text)]
              | None \<Rightarrow> Some [Send (AssistantDone generic_failure_text),
                               Send (AssistantMsg generic_failure_text)]))"

text \<open>
  The handler run from start to end with no other handler in between; \<open>None\<close> would be a
  handler that never returns.
\<close>

definition onMessage :: "runtime \<Rightarrow> ai_binding \<Rightarrow> ChatState \<Rightarrow> js_string \<Rightarrow> effect list option" where
  "onMessage rt ai st message =
     (case onMessage_begin rt st message of
        (es, None) \<Rightarrow> Some es
      | (es, Some f) \<Rightarrow> map_option ((@) es) (onMessage_resume rt ai f))"


section \<open>Sequences of messages\<close>

text \<open>
  Messages handled one after the other, each handler run to its end before the next starts,
  each with the model binding as it answers at that time. The result is the persisted state.
\<close>

fun run_messages :: "runtime \<Rightarrow> ChatState \<Rightarrow> (ai_binding \<times> js_string) list \<Rightarrow> ChatState option" where
  "run_messages rt st [] = Some st"
| "run_messages rt st ((ai, message) # rest) =
     (case onMessage rt ai st message of
        None \<Rightarrow> None
      | Some es \<Rightarrow> run_messages rt (final_state st es) rest)"

text \<open>
  Two handlers that overlap: the first runs up to its \<^verbatim>\<open>await\<close> of line 95, the second
  message is then handled from start to end, and the first handler is resumed last, with
  the answer to its own call. When the first handler ends before any \<^verbatim>\<open>await\<close> there is
  nothing to overlap and the second runs after it.
\<close>

definition run_overlapping ::
  "runtime \<Rightarrow> ChatState \<Rightarrow> ai_binding \<times> js_string \<Rightarrow> ai_binding \<times> js_string \<Rightarrow> ChatState option" where
  "run_overlapping rt st a b =
     (case onMessage_begin rt st (snd a) of
        (esA, None) \<Rightarrow>
          map_option (final_state (final_state st esA))
            (onMessage rt (fst b) (final_state st esA) (snd b))
      | (esA, Some fA) \<Rightarrow>
          (case onMessage rt (fst b) (final_state st esA) (snd b) of
             None \<Rightarrow> None
           | Some esB \<Rightarrow>
               map_option (final_state (final_state (final_state st esA) esB))
                 (onMessage_resume rt (fst a) fA)))"

definition count_role :: "role \<Rightarrow> ChatState \<Rightarrow> nat" where
  "count_role r st = length (filter (\<lambda>m. role m = r) (messages st))"


section \<open>Notions of the specification\<close>

text \<open>
  A valid \<open>user\<close> message, in the words of the specification: a frame that decodes as JSON
  with \<open>type = user\<close> and a string \<open>content\<close>, and whose trimmed text is not empty or whose
  image attachment has the accepted encoding.
\<close>

definition valid_image_attachment :: "runtime \<Rightarrow> js_string \<Rightarrow> bool" where
  "valid_image_attachment rt message =
     (case JSON_parse rt message of
        None \<Rightarrow> False
      | Some payload \<Rightarrow> isImageDataUrl (get_prop payload (lit ''imageDataUrl'')))"

definition valid_user_message :: "runtime \<Rightarrow> js_string \<Rightarrow> bool" where
  "valid_user_message rt message =
     (case JSON_parse rt message of
        None \<Rightarrow> False
      | Some payload \<Rightarrow>
          get_prop payload (lit ''type'') = JString (lit ''user'') \<and>
          (case get_prop payload (lit ''content'') of
             JString c \<Rightarrow> trim c \<noteq> [] \<or> valid_image_attachment rt message
           | _ \<Rightarrow> False))"

text \<open>
  The groups of up to \<open>n\<close> consecutive elements of a list, in order, and a group of words
  as a chunk: joined by single spaces, with a trailing space.
\<close>

function groups_of :: "nat \<Rightarrow> 'a list \<Rightarrow> 'a list list" where
  "groups_of n xs = (if n = 0 \<or> xs = [] then [] else take n xs # groups_of n (drop n xs))"
  by pat_completeness auto
termination
  by (relation "measure (\<lambda>(n, xs). length xs)") auto

declare groups_of.simps [simp del]

definition render_group :: "js_string list \<Rightarrow> js_string" where
  "render_group g = join (lit '' '') g @ lit '' ''"

section \<open>Parts of the handler, named for the statements\<close>

text \<open>
  The local \<open>imageDataUrl\<close> of line 73, the user turn of lines 76 to 80, the request of
  lines 84 to 98, the assistant turn of line 157, and the chunks that the loop of line 161
  sends (three words a chunk, or the whole text when it has no word). The lemmas
  \<open>begin_user\<close> and \<open>deliver_eq\<close> below show that \<open>onMessage_begin\<close> and \<open>deliver\<close> compute
  exactly these.
\<close>

definition attachment_of :: "js_value \<Rightarrow> js_string option" where
  "attachment_of payload =
     (case get_prop payload (lit ''imageDataUrl'') of
        JString url \<Rightarrow> if isImageDataUrl (JString url) then Some url else None
      | _ \<Rightarrow> None)"

definition user_turn :: "js_string \<Rightarrow> js_string option \<Rightarrow> ChatMessage" where
  "user_turn txt img =
     \<lparr>role = User,
      content = (if txt \<noteq> [] then txt else lit ''Describe this image.''),
      imageDataUrl = img\<rparr>"

definition primary_request :: "ChatMessage list \<Rightarrow> js_string option \<Rightarrow> ai_request" where
  "primary_request next img =
     ChatRequest
       (\<lparr>msg_role = SystemRole, msg_content = Plain system_prompt\<rparr> #
        (if attached img then map toAiMessage (array_slice (- 12) None next)
         else map toTextOnlyMessage (array_slice (- 12) None next))) 512"

definition assistant_turn :: "js_string \<Rightarrow> ChatMessage" where
  "assistant_turn finalText = \<lparr>role = Assistant, content = finalText, imageDataUrl = None\<rparr>"

definition stream_chunks :: "js_string \<Rightarrow> js_string list" where
  "stream_chunks finalText =
     (if words_of finalText = [] then [finalText]
      else map render_group (groups_of 3 (words_of finalText)))"


section \<open>Worked examples\<close>

text \<open>
  A runtime, three model bindings and a few frames for the examples that follow the
  theorems. \<open>example_parse\<close> gives the value of \<^verbatim>\<open>JSON.parse\<close> on the three frames below
  and rejects every other string, as \<^verbatim>\<open>JSON.parse\<close> does with \<^verbatim>\<open>not json\<close>; the examples
  convert no value other than a string to a string.
\<close>

definition example_reset_frame :: js_string where
  \<open>example_reset_frame = lit ''{"type":"reset"}''\<close>

definition example_user_frame :: js_string where
  \<open>example_user_frame = lit ''{"type":"user","content":" hello there "}''\<close>

definition example_image_frame :: js_string where
  \<open>example_image_frame =
     lit ''{"type":"user","content":"","imageDataUrl":"data:image/png;base64,AAAA"}''\<close>

definition example_parse :: "js_string \<Rightarrow> js_value option" where
  "example_parse s =
     (if s = example_reset_frame
      then Some (JObject [(lit ''type'', JString (lit ''reset''))])
      else if s = example_user_frame
      then Some (JObject [(lit ''type'', JString (lit ''user'')),
                          (lit ''content'', JString (lit '' hello there ''))])
      else if s = example_image_frame
      then Some (JObject [(lit ''type'', JString (lit ''user'')),
                          (lit ''content'', JString []),
                          (lit ''imageDataUrl'', JString (lit ''data:image/png;base64,AAAA''))])
      else None)"

definition example_runtime :: runtime where
  "example_runtime =
     \<lparr>JSON_parse = example_parse,
      JSON_stringify = (\<lambda>v. JUndefined),
      ToString = (\<lambda>v. lit ''undefined'')\<rparr>"

definition seven_words :: js_string where
  "seven_words = lit ''one two three four five six seven''"

definition example_user_turn :: ChatMessage where
  "example_user_turn = \<lparr>role = User, content = lit ''hello there'', imageDataUrl = None\<rparr>"

definition example_frame :: frame where
  "example_frame =
     \<lparr>nextMessages = [example_user_turn],
      userText = lit ''hello there'',
      imageUrl = None,
      model = TEXT_MODEL,
      request = ChatRequest
        [\<lparr>msg_role = SystemRole, msg_content = Plain system_prompt\<rparr>,
         \<lparr>msg_role = ChatRole User, msg_content = Plain (lit ''hello there'')\<rparr>] 512\<rparr>"

definition example_image_url :: js_string where
  "example_image_url = lit ''data:image/png;base64,AAAA''"

definition example_image_turn :: ChatMessage where
  "example_image_turn =
     \<lparr>role = User, content = lit ''Describe this image.'', imageDataUrl = Some example_image_url\<rparr>"

definition example_image_frame_state :: frame where
  "example_image_frame_state =
     \<lparr>nextMessages = [example_image_turn],
      userText = [],
      imageUrl = Some example_image_url,
      model = VISION_MODEL,
      request = ChatRequest
        [\<lparr>msg_role = SystemRole, msg_content = Plain system_prompt\<rparr>,
         \<lparr>msg_role = ChatRole User,
          msg_content = Parts [TextPart (lit ''Describe this image.''),
                               ImageUrlPart example_image_url]\<rparr>] 512\<rparr>"

definition example_ai_ok :: ai_binding where
  "example_ai_ok m r = Inr (JObject [(lit ''response'', JString seven_words)])"

definition example_ai_down :: ai_binding where
  "example_ai_down m r = Inl (ErrorObj (lit ''network down''))"

definition example_ai_fallback_ok :: ai_binding where
  "example_ai_fallback_ok m r =
     (if m = VISION_FALLBACK_MODEL
      then Inr (JObject [(lit ''description'', JString seven_words)])
      else Inl (ErrorObj (lit ''5016: please submit the prompt 'agree' first'')))"

definition example_ai_unlicensed :: ai_binding where
  "example_ai_unlicensed m r =
     Inl (ErrorObj (lit ''5016: please submit the prompt 'agree' first''))"


section \<open>Properties of the array and string operations\<close>

lemma rel_index_nat: "rel_index (int k) len = min k len"
  by (simp add: rel_index_def)

lemma array_slice_window: "array_slice (int i) (Some (int i + int n)) xs = take n (drop i xs)"
proof -
  have "int i + int n = int (i + n)" by simp
  then have eq: "array_slice (int i) (Some (int i + int n)) xs =
        take (min (i + n) (length xs) - min i (length xs)) (drop (min i (length xs)) xs)"
    by (simp only: array_slice_def Let_def rel_index_nat option.case)
  show ?thesis
  proof (cases "i < length xs")
    case True
    then have "min (i + n) (length xs) - min i (length xs) = min n (length xs - i)"
      and "min i (length xs) = i" by simp_all
    with eq have "array_slice (int i) (Some (int i + int n)) xs =
        take (min n (length (drop i xs))) (drop i xs)" by simp
    then show ?thesis by (simp add: min_def)
  next
    case False
    with eq show ?thesis by simp
  qed
qed

lemma array_slice_last:
  "0 < n \<Longrightarrow> array_slice (- int n) None xs = drop (length xs - n) xs"
proof -
  assume "0 < n"
  then have "rel_index (- int n) (length xs) = length xs - n"
    by (simp add: rel_index_def)
  then show ?thesis by (simp add: array_slice_def Let_def)
qed

lemma groups_of_Nil [simp]: "groups_of n [] = []"
  by (simp add: groups_of.simps)

lemma groups_of_step: "0 < n \<Longrightarrow> xs \<noteq> [] \<Longrightarrow> groups_of n xs = take n xs # groups_of n (drop n xs)"
  by (subst groups_of.simps) simp

lemma concat_groups_of: "0 < n \<Longrightarrow> concat (groups_of n xs) = xs"
proof (induction n xs rule: groups_of.induct)
  case (1 n xs)
  show ?case
  proof (cases "xs = []")
    case True then show ?thesis by simp
  next
    case False
    with 1 have "concat (groups_of n (drop n xs)) = drop n xs" by simp
    then show ?thesis
      using groups_of_step[OF 1(2) False] by simp
  qed
qed

lemma groups_of_nonempty: "g \<in> set (groups_of n xs) \<Longrightarrow> g \<noteq> []"
proof (induction n xs rule: groups_of.induct)
  case (1 n xs)
  show ?case
  proof (cases "n = 0 \<or> xs = []")
    case True with 1(2) show ?thesis by (simp add: groups_of.simps)
  next
    case False
    then have n: "0 < n" and xs: "xs \<noteq> []" by simp_all
    from 1(2) have "g = take n xs \<or> g \<in> set (groups_of n (drop n xs))"
      using groups_of_step[OF n xs] by simp
    then show ?thesis
    proof
      assume "g = take n xs" with n xs show ?thesis by simp
    next
      assume "g \<in> set (groups_of n (drop n xs))"
      with 1(1) False show ?thesis by simp
    qed
  qed
qed



lemma chunk_loop_eq:
  "0 < n \<Longrightarrow> chunk_loop ws n i acc = Some (acc @ map render_group (groups_of n (drop i ws)))"
proof (induction "length ws - i" arbitrary: i acc rule: less_induct)
  case less
  show ?case
  proof (cases "i < length ws")
    case False
    then show ?thesis by (subst chunk_loop.simps) simp
  next
    case True
    then have ne: "drop i ws \<noteq> []" by simp
    from True less.prems have "length ws - (i + n) < length ws - i" by simp
    from less.hyps[OF this less.prems]
    have "chunk_loop ws n (i + n) (acc @ [render_group (take n (drop i ws))]) =
          Some ((acc @ [render_group (take n (drop i ws))]) @ map render_group (groups_of n (drop (i + n) ws)))" .
    moreover have "chunk_loop ws n i acc = chunk_loop ws n (i + n) (acc @ [render_group (take n (drop i ws))])"
      using True by (subst chunk_loop.simps) (simp add: render_group_def array_slice_window)
    moreover have "groups_of n (drop i ws) = take n (drop i ws) # groups_of n (drop (i + n) ws)"
      using groups_of_step[OF less.prems ne] by (simp add: add.commute)
    ultimately show ?thesis by simp
  qed
qed

lemma is_space_sp [simp]: "is_space 0x20"
  by (simp add: is_space_def)

lemma lit_sp [simp]: "lit '' '' = [0x20]"
  by (simp add: lit_def)

lemma split_ws_word_sp:
  assumes "\<forall>c\<in>set w. \<not> is_space c" and "is_space c"
  shows "split_ws (w @ c # rest) = w # split_ws (dropWhile is_space rest)"
proof -
  have t: "takeWhile (\<lambda>c. \<not> is_space c) (w @ c # rest) = w"
    using assms by (simp add: takeWhile_append2)
  have d: "dropWhile (\<lambda>c. \<not> is_space c) (w @ c # rest) = c # rest"
    using assms by (simp add: dropWhile_append2)
  show ?thesis
    by (subst split_ws.simps) (simp add: t d assms(2))
qed

lemma split_ws_no_space: "w \<in> set (split_ws s) \<Longrightarrow> c \<in> set w \<Longrightarrow> \<not> is_space c"
proof (induction s arbitrary: w rule: split_ws.induct)
  case (1 s)
  let ?w = "takeWhile (\<lambda>c. \<not> is_space c) s"
  let ?r = "dropWhile (\<lambda>c. \<not> is_space c) s"
  have head: "c \<in> set ?w \<Longrightarrow> \<not> is_space c"
    by (auto dest: set_takeWhileD)
  show ?case
  proof (cases "?r = []")
    case True
    with 1(2) have "w = ?w"
      by (subst (asm) split_ws.simps) (auto simp: Let_def split: if_splits)
    with 1(3) head show ?thesis by simp
  next
    case False
    with 1(2) have "w = ?w \<or> w \<in> set (split_ws (dropWhile is_space ?r))"
      by (subst (asm) split_ws.simps) (auto simp: Let_def split: if_splits)
    then show ?thesis
    proof
      assume "w = ?w" with 1(3) head show ?thesis by simp
    next
      assume "w \<in> set (split_ws (dropWhile is_space ?r))"
      from 1(1)[OF refl refl False this 1(3)] show ?thesis .
    qed
  qed
qed

lemma words_of_word: "w \<in> set (words_of s) \<Longrightarrow> w \<noteq> [] \<and> (\<forall>c\<in>set w. \<not> is_space c)"
  by (auto simp: words_of_def dest: split_ws_no_space)

lemma words_of_Nil [simp]: "words_of [] = []"
  by (simp add: words_of_def split_ws.simps)

lemma words_of_dropWhile: "words_of (dropWhile is_space s) = words_of s"
proof (cases s)
  case Nil
  then show ?thesis by simp
next
  case (Cons c cs)
  show ?thesis
  proof (cases "is_space c")
    case False
    with Cons show ?thesis by simp
  next
    case True
    from split_ws_word_sp[of "[]" c cs] True
    have "split_ws (c # cs) = [] # split_ws (dropWhile is_space cs)" by simp
    with Cons True show ?thesis by (simp add: words_of_def)
  qed
qed

lemma words_of_word_sp:
  assumes "w \<noteq> []" and "\<forall>c\<in>set w. \<not> is_space c"
  shows "words_of (w @ 0x20 # rest) = w # words_of rest"
proof -
  have "split_ws (w @ 0x20 # rest) = w # split_ws (dropWhile is_space rest)"
    using assms(2) by (rule split_ws_word_sp) simp
  then have "words_of (w @ 0x20 # rest) = w # words_of (dropWhile is_space rest)"
    using assms(1) by (simp add: words_of_def)
  then show ?thesis by (simp add: words_of_dropWhile)
qed

lemma words_of_concat:
  "\<forall>w\<in>set ws. w \<noteq> [] \<and> (\<forall>c\<in>set w. \<not> is_space c) \<Longrightarrow>
   words_of (concat (map (\<lambda>w. w @ [0x20]) ws)) = ws"
proof (induction ws)
  case Nil
  then show ?case by simp
next
  case (Cons w ws)
  then have "words_of (w @ 0x20 # concat (map (\<lambda>w. w @ [0x20]) ws)) = w # ws"
    by (simp add: words_of_word_sp)
  then show ?case by simp
qed

lemma join_append_sep: "g \<noteq> [] \<Longrightarrow> join sep g @ sep = concat (map (\<lambda>w. w @ sep) g)"
  by (induction sep g rule: join.induct) simp_all

lemma concat_render_groups:
  "\<forall>g\<in>set gs. g \<noteq> [] \<Longrightarrow>
   concat (map render_group gs) = concat (map (\<lambda>w. w @ [0x20]) (concat gs))"
  by (induction gs) (simp_all add: render_group_def join_append_sep)

lemma chunkByWords_eq:
  assumes "0 < n"
  shows "chunkByWords text n =
         Some (if words_of text = [] then [text]
               else map render_group (groups_of n (words_of text)))"
proof -
  have "chunk_loop (words_of text) n 0 [] = Some (map render_group (groups_of n (words_of text)))"
    using chunk_loop_eq[OF assms, of "words_of text" 0 "[]"] by simp
  moreover have "words_of text \<noteq> [] \<Longrightarrow> groups_of n (words_of text) \<noteq> []"
    using groups_of_step[OF assms, of "words_of text"] by simp
  ultimately show ?thesis by (auto simp: chunkByWords_def)
qed

lemma split_ws_Nil [simp]: "split_ws [] = [[]]"
  by (simp add: split_ws.simps)

lemma split_ws_concat:
  "\<forall>w\<in>set ws. w \<noteq> [] \<and> (\<forall>c\<in>set w. \<not> is_space c) \<Longrightarrow>
   split_ws (concat (map (\<lambda>w. w @ [0x20]) ws)) = ws @ [[]]"
proof (induction ws)
  case Nil
  then show ?case by simp
next
  case (Cons w ws)
  let ?rest = "concat (map (\<lambda>w. w @ [0x20]) ws)"
  have nospace: "\<forall>c\<in>set w. \<not> is_space c" using Cons.prems by simp
  have "dropWhile is_space ?rest = ?rest"
  proof (cases ws)
    case Nil
    then show ?thesis by simp
  next
    case (Cons v vs)
    with Cons.prems obtain d ds where "v = d # ds" and "\<not> is_space d"
      by (cases v) auto
    with Cons show ?thesis by simp
  qed
  moreover have "split_ws (w @ 0x20 # ?rest) = w # split_ws (dropWhile is_space ?rest)"
    using nospace by (rule split_ws_word_sp) simp
  ultimately show ?case using Cons by simp
qed

section \<open>Properties of effect logs\<close>

lemma final_state_append: "final_state st (es @ es') = final_state (final_state st es) es'"
  by (induction st es rule: final_state.induct) simp_all

lemma final_state_chunks [simp]:
  "final_state st (concat (map (\<lambda>chunk. [Send (AssistantChunk chunk), Sleep 24]) chunks) @ es) =
   final_state st es"
  by (induction chunks) simp_all

lemma sent_simps [simp]:
  "sent [] = []"
  "sent (Send m # es) = m # sent es"
  "sent (SetState st # es) = sent es"
  "sent (AiRun a r # es) = sent es"
  "sent (Sleep n # es) = sent es"
  by (simp_all add: sent_def)

lemma ai_calls_simps [simp]:
  "ai_calls [] = []"
  "ai_calls (AiRun a r # es) = (a, r) # ai_calls es"
  "ai_calls (SetState st # es) = ai_calls es"
  "ai_calls (Send m # es) = ai_calls es"
  "ai_calls (Sleep n # es) = ai_calls es"
  by (simp_all add: ai_calls_def)

lemma sent_append: "sent (es @ es') = sent es @ sent es'"
  by (simp add: sent_def)

lemma sent_chunks [simp]:
  "sent (concat (map (\<lambda>chunk. [Send (AssistantChunk chunk), Sleep 24]) chunks)) =
   map AssistantChunk chunks"
  by (induction chunks) simp_all

lemma ai_calls_append: "ai_calls (es @ es') = ai_calls es @ ai_calls es'"
  by (simp add: ai_calls_def)

lemma ai_calls_chunks [simp]:
  "ai_calls (concat (map (\<lambda>chunk. [Send (AssistantChunk chunk), Sleep 24]) chunks)) = []"
  by (induction chunks) simp_all

lemma set_chunks_no_SetState:
  "SetState s \<notin> set (concat (map (\<lambda>chunk. [Send (AssistantChunk chunk), Sleep 24]) chunks))"
  by (induction chunks) simp_all

lemma final_state_AiRun_prefix:
  "\<forall>e\<in>set pre. \<exists>m r. e = AiRun m r \<Longrightarrow> final_state st (pre @ es) = final_state st es"
  by (induction pre) auto

section \<open>Properties of the reply stream\<close>

lemma chunkByWords_3: "chunkByWords finalText 3 = Some (stream_chunks finalText)"
  by (simp add: chunkByWords_eq stream_chunks_def)

lemma deliver_eq:
  "deliver rt f assistantText =
     Some ([SetState \<lparr>messages = nextMessages f @
              [\<lparr>role = Assistant, content = js_String rt assistantText, imageDataUrl = None\<rparr>]\<rparr>,
            Send AssistantStart] @
           concat (map (\<lambda>chunk. [Send (AssistantChunk chunk), Sleep 24])
                    (stream_chunks (js_String rt assistantText))) @
           [Send (AssistantDone (js_String rt assistantText)),
            Send (AssistantMsg (js_String rt assistantText))])"
  by (simp add: deliver_def Let_def chunkByWords_3)

lemma deliver_props:
  assumes "deliver rt f t = Some es"
  shows "final_state st' es = \<lparr>messages = nextMessages f @ [assistant_turn (js_String rt t)]\<rparr>"
    and "SetState s \<in> set es \<Longrightarrow>
           s = \<lparr>messages = nextMessages f @ [assistant_turn (js_String rt t)]\<rparr>"
    and "ai_calls es = []"
    and "sent es = [AssistantStart] @ map AssistantChunk (stream_chunks (js_String rt t)) @
           [AssistantDone (js_String rt t), AssistantMsg (js_String rt t)]"
proof -
  from assms have es: "es =
     [SetState \<lparr>messages = nextMessages f @ [assistant_turn (js_String rt t)]\<rparr>,
      Send AssistantStart] @
     concat (map (\<lambda>chunk. [Send (AssistantChunk chunk), Sleep 24])
              (stream_chunks (js_String rt t))) @
     [Send (AssistantDone (js_String rt t)), Send (AssistantMsg (js_String rt t))]"
    by (simp add: deliver_eq assistant_turn_def)
  show "final_state st' es = \<lparr>messages = nextMessages f @ [assistant_turn (js_String rt t)]\<rparr>"
    by (simp add: es)
  show "s = \<lparr>messages = nextMessages f @ [assistant_turn (js_String rt t)]\<rparr>"
    if "SetState s \<in> set es"
    using that set_chunks_no_SetState[of s] by (auto simp: es)
  show "ai_calls es = []" by (simp add: es ai_calls_append)
  show "sent es = [AssistantStart] @ map AssistantChunk (stream_chunks (js_String rt t)) @
           [AssistantDone (js_String rt t), AssistantMsg (js_String rt t)]"
    by (simp add: es sent_append)
qed

lemma deliver_total: "\<exists>es. deliver rt f t = Some es"
  by (simp add: deliver_eq)

section \<open>Properties of the two parts of onMessage\<close>

lemma isImageDataUrl_nonempty: "isImageDataUrl (JString url) \<Longrightarrow> url \<noteq> []"
  by (auto simp: isImageDataUrl_def starts_with_def lit_def)

lemma isImageDataUrl_string: "isImageDataUrl v \<Longrightarrow> \<exists>url. v = JString url"
  by (cases v) (simp_all add: isImageDataUrl_def)

lemma attached_attachment_of:
  "attached (attachment_of payload) \<longleftrightarrow> isImageDataUrl (get_prop payload (lit ''imageDataUrl''))"
  by (auto simp: attached_def attachment_of_def isImageDataUrl_nonempty
      split: js_value.splits dest: isImageDataUrl_string)

lemma begin_user:
  assumes "JSON_parse rt message = Some payload"
    and "get_prop payload (lit ''type'') = JString (lit ''user'')"
    and "get_prop payload (lit ''content'') = JString c"
    and "trim c \<noteq> [] \<or> isImageDataUrl (get_prop payload (lit ''imageDataUrl''))"
  shows "onMessage_begin rt st message =
     ([SetState \<lparr>messages = messages st @ [user_turn (trim c) (attachment_of payload)]\<rparr>,
       AiRun (if attached (attachment_of payload) then VISION_MODEL else TEXT_MODEL)
         (primary_request (messages st @ [user_turn (trim c) (attachment_of payload)])
            (attachment_of payload))],
      Some \<lparr>nextMessages = messages st @ [user_turn (trim c) (attachment_of payload)],
            userText = trim c,
            imageUrl = attachment_of payload,
            model = (if attached (attachment_of payload) then VISION_MODEL else TEXT_MODEL),
            request = primary_request
              (messages st @ [user_turn (trim c) (attachment_of payload)])
              (attachment_of payload)\<rparr>)"
proof -
  have neq: "lit ''user'' \<noteq> lit ''reset''"
    by (simp add: lit_def)
  have att: "trim c = [] \<Longrightarrow> attached (attachment_of payload)"
    using assms(4) by (simp add: attached_attachment_of)
  show ?thesis
    unfolding onMessage_begin_def
    using att
    by (simp add: assms(1,2,3) neq Let_def user_turn_def primary_request_def
        attachment_of_def[symmetric])
qed

lemma begin_Some:
  assumes "onMessage_begin rt st message = (es, Some f)"
  shows "\<exists>payload c.
           JSON_parse rt message = Some payload \<and>
           get_prop payload (lit ''type'') = JString (lit ''user'') \<and>
           get_prop payload (lit ''content'') = JString c \<and>
           (trim c \<noteq> [] \<or> isImageDataUrl (get_prop payload (lit ''imageDataUrl'')))"
proof -
  from assms obtain payload where p: "JSON_parse rt message = Some payload"
    by (auto simp: onMessage_begin_def split: option.splits)
  from assms p have ty: "get_prop payload (lit ''type'') = JString (lit ''user'')"
    by (auto simp: onMessage_begin_def split: if_splits)
  from assms p ty obtain c where c: "get_prop payload (lit ''content'') = JString c"
    by (auto simp: onMessage_begin_def split: if_splits js_value.splits)
  have "trim c \<noteq> [] \<or> attached (attachment_of payload)"
    using assms p ty c
    by (auto simp: onMessage_begin_def Let_def attachment_of_def[symmetric] split: if_splits)
  with p ty c show ?thesis by (auto simp: attached_attachment_of)
qed

lemma valid_user_message_iff:
  "valid_user_message rt message \<longleftrightarrow>
     (\<exists>payload c.
        JSON_parse rt message = Some payload \<and>
        get_prop payload (lit ''type'') = JString (lit ''user'') \<and>
        get_prop payload (lit ''content'') = JString c \<and>
        (trim c \<noteq> [] \<or> isImageDataUrl (get_prop payload (lit ''imageDataUrl''))))"
  by (auto simp: valid_user_message_def valid_image_attachment_def
      split: option.splits js_value.splits)

lemma begin_shape:
  assumes "onMessage_begin rt st message = (es, Some f)"
  obtains payload c where
    "JSON_parse rt message = Some payload"
    "get_prop payload (lit ''type'') = JString (lit ''user'')"
    "get_prop payload (lit ''content'') = JString c"
    "trim c \<noteq> [] \<or> isImageDataUrl (get_prop payload (lit ''imageDataUrl''))"
    "nextMessages f = messages st @ [user_turn (trim c) (attachment_of payload)]"
    "userText f = trim c"
    "imageUrl f = attachment_of payload"
    "model f = (if attached (attachment_of payload) then VISION_MODEL else TEXT_MODEL)"
    "request f = primary_request (nextMessages f) (attachment_of payload)"
    "es = [SetState \<lparr>messages = nextMessages f\<rparr>, AiRun (model f) (request f)]"
proof -
  from begin_Some[OF assms] obtain payload c where
    p: "JSON_parse rt message = Some payload"
      "get_prop payload (lit ''type'') = JString (lit ''user'')"
      "get_prop payload (lit ''content'') = JString c"
      "trim c \<noteq> [] \<or> isImageDataUrl (get_prop payload (lit ''imageDataUrl''))"
    by blast
  from begin_user[OF p, of st] assms
  have f: "f = \<lparr>nextMessages = messages st @ [user_turn (trim c) (attachment_of payload)],
            userText = trim c,
            imageUrl = attachment_of payload,
            model = (if attached (attachment_of payload) then VISION_MODEL else TEXT_MODEL),
            request = primary_request
              (messages st @ [user_turn (trim c) (attachment_of payload)])
              (attachment_of payload)\<rparr>"
    and es: "es = [SetState \<lparr>messages = messages st @ [user_turn (trim c) (attachment_of payload)]\<rparr>,
       AiRun (if attached (attachment_of payload) then VISION_MODEL else TEXT_MODEL)
         (primary_request (messages st @ [user_turn (trim c) (attachment_of payload)])
            (attachment_of payload))]"
    by simp_all
  show thesis
    by (rule that[OF p]) (simp_all add: f es)
qed

lemma valid_user_message_accepts:
  "valid_user_message rt message \<longleftrightarrow> (\<exists>es f. onMessage_begin rt st message = (es, Some f))"
proof
  assume "valid_user_message rt message"
  then obtain payload c where
    "JSON_parse rt message = Some payload"
    "get_prop payload (lit ''type'') = JString (lit ''user'')"
    "get_prop payload (lit ''content'') = JString c"
    "trim c \<noteq> [] \<or> isImageDataUrl (get_prop payload (lit ''imageDataUrl''))"
    unfolding valid_user_message_iff by blast
  from begin_user[OF this, of st] show "\<exists>es f. onMessage_begin rt st message = (es, Some f)"
    by blast
next
  assume "\<exists>es f. onMessage_begin rt st message = (es, Some f)"
  then obtain es f where "onMessage_begin rt st message = (es, Some f)" by blast
  from begin_Some[OF this] show "valid_user_message rt message"
    unfolding valid_user_message_iff .
qed

lemma resume_primary_ok:
  "ai (model f) (request f) = Inr aiResp \<Longrightarrow>
   onMessage_resume rt ai f = deliver rt f (extract_reply rt aiResp)"
  by (simp add: onMessage_resume_def)

lemma resume_generic:
  assumes "ai (model f) (request f) = Inl err"
    and "\<not> (attached (imageUrl f) \<and> str_includes (error_message rt err) license_hint)"
  shows "onMessage_resume rt ai f =
     Some [Send (AssistantDone generic_failure_text), Send (AssistantMsg generic_failure_text)]"
  using assms by (auto simp: onMessage_resume_def attached_def Let_def split: option.splits)

lemma resume_fallback:
  assumes "ai (model f) (request f) = Inl err"
    and "imageUrl f = Some url" and "url \<noteq> []"
    and "str_includes (error_message rt err) license_hint"
  shows "onMessage_resume rt ai f =
     (case ai VISION_FALLBACK_MODEL (PromptRequest (fallback_prompt (userText f)) url) of
        Inr fallbackResp \<Rightarrow>
          map_option ((#) (AiRun VISION_FALLBACK_MODEL (PromptRequest (fallback_prompt (userText f)) url)))
            (deliver rt f (extract_fallback_reply rt fallbackResp))
      | Inl err2 \<Rightarrow>
          Some [AiRun VISION_FALLBACK_MODEL (PromptRequest (fallback_prompt (userText f)) url),
                Send (AssistantDone license_failure_text),
                Send (AssistantMsg license_failure_text)])"
  using assms by (simp add: onMessage_resume_def Let_def)

lemma resume_cases:
  obtains (replied) t pre es where
      "onMessage_resume rt ai f = Some (pre @ es)" "deliver rt f t = Some es"
      "\<forall>e\<in>set pre. \<exists>m r. e = AiRun m r"
  | (failed) err fixedText pre where
      "ai (model f) (request f) = Inl err"
      "onMessage_resume rt ai f = Some (pre @ [Send (AssistantDone fixedText), Send (AssistantMsg fixedText)])"
      "\<forall>e\<in>set pre. \<exists>m r. e = AiRun m r"
proof (cases "ai (model f) (request f)")
  case (Inr aiResp)
  obtain es where es: "deliver rt f (extract_reply rt aiResp) = Some es"
    using deliver_total by blast
  with Inr have r: "onMessage_resume rt ai f = Some ([] @ es)"
    by (simp add: resume_primary_ok)
  show ?thesis by (rule replied[OF r es]) simp
next
  case (Inl err)
  show ?thesis
  proof (cases "attached (imageUrl f) \<and> str_includes (error_message rt err) license_hint")
    case False
    with Inl have r: "onMessage_resume rt ai f =
      Some ([] @ [Send (AssistantDone generic_failure_text), Send (AssistantMsg generic_failure_text)])"
      by (simp add: resume_generic)
    show ?thesis by (rule failed[OF Inl r]) simp
  next
    case True
    then obtain url where url: "imageUrl f = Some url" "url \<noteq> []"
      by (auto simp: attached_def split: option.splits)
    let ?req = "PromptRequest (fallback_prompt (userText f)) url"
    note r = resume_fallback[where ai = ai and f = f and rt = rt, OF Inl url conjunct2[OF True]]
    show ?thesis
    proof (cases "ai VISION_FALLBACK_MODEL ?req")
      case (Inr fallbackResp)
      obtain es where es: "deliver rt f (extract_fallback_reply rt fallbackResp) = Some es"
        using deliver_total by blast
      with r Inr have r2: "onMessage_resume rt ai f = Some ([AiRun VISION_FALLBACK_MODEL ?req] @ es)"
        by simp
      show ?thesis by (rule replied[OF r2 es]) simp
    next
      case (Inl err2)
      with r have r2: "onMessage_resume rt ai f =
        Some ([AiRun VISION_FALLBACK_MODEL ?req] @
              [Send (AssistantDone license_failure_text), Send (AssistantMsg license_failure_text)])"
        by simp
      show ?thesis by (rule failed[OF \<open>ai (model f) (request f) = Inl err\<close> r2]) simp
    qed
  qed
qed

lemma resume_total: "\<exists>post. onMessage_resume rt ai f = Some post"
  by (rule resume_cases[of rt ai f]) auto

lemma deliver_first:
  assumes "deliver rt f t = Some d"
  shows "SetState \<lparr>messages = nextMessages f @ [assistant_turn (js_String rt t)]\<rparr> \<in> set d"
  using assms by (auto simp: deliver_eq assistant_turn_def)

lemma resume_success:
  assumes "(ai (model f) (request f) = Inr resp \<and> assistantText = extract_reply rt resp) \<or>
       (ai (model f) (request f) = Inl err \<and> imageUrl f = Some url \<and> url \<noteq> [] \<and>
        str_includes (error_message rt err) license_hint \<and>
        ai VISION_FALLBACK_MODEL (PromptRequest (fallback_prompt (userText f)) url) = Inr resp \<and>
        assistantText = extract_fallback_reply rt resp)"
  shows "\<exists>pre d. onMessage_resume rt ai f = Some (pre @ d) \<and>
           deliver rt f assistantText = Some d \<and>
           (\<forall>e\<in>set pre. \<exists>m r. e = AiRun m r)"
  using assms
proof
  assume a: "ai (model f) (request f) = Inr resp \<and> assistantText = extract_reply rt resp"
  obtain d where d: "deliver rt f assistantText = Some d" using deliver_total by blast
  with a have "onMessage_resume rt ai f = Some ([] @ d)"
    by (simp add: resume_primary_ok)
  with d show ?thesis by (intro exI[of _ "[]"] exI[of _ d]) simp
next
  assume a: "ai (model f) (request f) = Inl err \<and> imageUrl f = Some url \<and> url \<noteq> [] \<and>
        str_includes (error_message rt err) license_hint \<and>
        ai VISION_FALLBACK_MODEL (PromptRequest (fallback_prompt (userText f)) url) = Inr resp \<and>
        assistantText = extract_fallback_reply rt resp"
  let ?req = "PromptRequest (fallback_prompt (userText f)) url"
  obtain d where d: "deliver rt f assistantText = Some d" using deliver_total by blast
  from a have e: "ai (model f) (request f) = Inl err" and u: "imageUrl f = Some url" "url \<noteq> []"
    and h: "str_includes (error_message rt err) license_hint"
    and fb: "ai VISION_FALLBACK_MODEL ?req = Inr resp"
    and t: "assistantText = extract_fallback_reply rt resp"
    by simp_all
  from resume_fallback[where ai = ai and f = f and rt = rt, OF e u h] fb t d
  have "onMessage_resume rt ai f = Some ([AiRun VISION_FALLBACK_MODEL ?req] @ d)"
    by simp
  with d show ?thesis
    by (intro exI[of _ "[AiRun VISION_FALLBACK_MODEL ?req]"] exI[of _ d]) simp
qed

lemma onMessage_Some:
  "onMessage_begin rt st message = (es, Some f) \<Longrightarrow> onMessage_resume rt ai f = Some post \<Longrightarrow>
   onMessage rt ai st message = Some (es @ post)"
  by (simp add: onMessage_def)

lemma onMessage_total: "\<exists>es. onMessage rt ai st message = Some es"
proof (cases "onMessage_begin rt st message")
  case (Pair es fo)
  show ?thesis
  proof (cases fo)
    case None
    with Pair show ?thesis by (simp add: onMessage_def)
  next
    case (Some f)
    with Pair resume_total[of rt ai f] show ?thesis by (auto simp: onMessage_def)
  qed
qed

lemma models_distinct: "TEXT_MODEL \<noteq> VISION_MODEL"
  by (simp add: TEXT_MODEL_def VISION_MODEL_def lit_def)

lemma handler_step:
  assumes "valid_user_message rt message"
  shows "\<exists>es f post u.
           onMessage_begin rt st message = (es, Some f) \<and>
           onMessage rt ai st message = Some (es @ post) \<and>
           role u = User \<and>
           ((messages (final_state st (es @ post)) = messages st @ [u] \<and>
             isl (ai (model f) (request f))) \<or>
            (\<exists>a. role a = Assistant \<and>
                 messages (final_state st (es @ post)) = messages st @ [u, a]))"
proof -
  from assms obtain payload0 c0 where
    p: "JSON_parse rt message = Some payload0"
      "get_prop payload0 (lit ''type'') = JString (lit ''user'')"
      "get_prop payload0 (lit ''content'') = JString c0"
      "trim c0 \<noteq> [] \<or> isImageDataUrl (get_prop payload0 (lit ''imageDataUrl''))"
    unfolding valid_user_message_iff by blast
  from begin_user[OF p, of st] obtain es f where
    b: "onMessage_begin rt st message = (es, Some f)"
    by blast
  from b obtain payload c where
    n: "nextMessages f = messages st @ [user_turn (trim c) (attachment_of payload)]"
    and es: "es = [SetState \<lparr>messages = nextMessages f\<rparr>, AiRun (model f) (request f)]"
    by (rule begin_shape)
  let ?u = "user_turn (trim c) (attachment_of payload)"
  have u: "role ?u = User" by (simp add: user_turn_def)
  show ?thesis
  proof (rule resume_cases[of rt ai f])
    fix t pre d
    assume r: "onMessage_resume rt ai f = Some (pre @ d)" and d: "deliver rt f t = Some d"
      and pre: "\<forall>e\<in>set pre. \<exists>m r. e = AiRun m r"
    have "final_state st (es @ pre @ d) = final_state (final_state st es) (pre @ d)"
      by (rule final_state_append)
    also have "\<dots> = final_state (final_state st es) d"
      using pre by (rule final_state_AiRun_prefix)
    also have "\<dots> = \<lparr>messages = nextMessages f @ [assistant_turn (js_String rt t)]\<rparr>"
      by (rule deliver_props(1)[OF d])
    finally have "final_state st (es @ pre @ d) =
            \<lparr>messages = nextMessages f @ [assistant_turn (js_String rt t)]\<rparr>" .
    then have "messages (final_state st (es @ pre @ d)) =
            messages st @ [?u, assistant_turn (js_String rt t)]"
      by (simp add: n)
    moreover have "role (assistant_turn (js_String rt t)) = Assistant"
      by (simp add: assistant_turn_def)
    ultimately show ?thesis
      using b onMessage_Some[OF b r] u by blast
  next
    fix err fixedText pre
    assume f: "ai (model f) (request f) = Inl err"
      and r: "onMessage_resume rt ai f =
        Some (pre @ [Send (AssistantDone fixedText), Send (AssistantMsg fixedText)])"
      and pre: "\<forall>e\<in>set pre. \<exists>m r. e = AiRun m r"
    have "final_state st (es @ pre @ [Send (AssistantDone fixedText), Send (AssistantMsg fixedText)]) =
            final_state (final_state st es)
              (pre @ [Send (AssistantDone fixedText), Send (AssistantMsg fixedText)])"
      by (rule final_state_append)
    also have "\<dots> = final_state (final_state st es)
              [Send (AssistantDone fixedText), Send (AssistantMsg fixedText)]"
      using pre by (rule final_state_AiRun_prefix)
    also have "\<dots> = \<lparr>messages = nextMessages f\<rparr>"
      by (simp add: es)
    finally have "final_state st
             (es @ pre @ [Send (AssistantDone fixedText), Send (AssistantMsg fixedText)]) =
            \<lparr>messages = nextMessages f\<rparr>" .
    then have "messages (final_state st
             (es @ pre @ [Send (AssistantDone fixedText), Send (AssistantMsg fixedText)])) =
            messages st @ [?u]"
      by (simp add: n)
    moreover from f have "isl (ai (model f) (request f))" by simp
    ultimately show ?thesis
      using b onMessage_Some[OF b r] u by blast
  qed
qed

lemma run_counts:
  assumes "\<forall>(ai, message)\<in>set inputs. valid_user_message rt message"
  shows "\<exists>st'.
           run_messages rt st inputs = Some st' \<and>
           count_role User st' = count_role User st + length inputs \<and>
           count_role Assistant st' \<le> count_role Assistant st + length inputs \<and>
           (count_role Assistant st' < count_role Assistant st + length inputs \<longrightarrow>
              (\<exists>k<length inputs. \<exists>st_k es f.
                  run_messages rt st (take k inputs) = Some st_k \<and>
                  onMessage_begin rt st_k (snd (inputs ! k)) = (es, Some f) \<and>
                  isl (fst (inputs ! k) (model f) (request f))))"
  using assms
proof (induction inputs arbitrary: st)
  case Nil
  then show ?case by simp
next
  case (Cons x rest)
  obtain ai message where x: "x = (ai, message)" by (cases x)
  from Cons.prems x have v: "valid_user_message rt message"
    and vs: "\<forall>(ai, message)\<in>set rest. valid_user_message rt message"
    by simp_all
  from handler_step[OF v, of st ai] obtain es f post u where
    b: "onMessage_begin rt st message = (es, Some f)"
    and h: "onMessage rt ai st message = Some (es @ post)"
    and u: "role u = User"
    and alt: "(messages (final_state st (es @ post)) = messages st @ [u] \<and>
             isl (ai (model f) (request f))) \<or>
            (\<exists>a. role a = Assistant \<and>
                 messages (final_state st (es @ post)) = messages st @ [u, a])"
    by blast
  let ?st1 = "final_state st (es @ post)"
  from Cons.IH[OF vs, of ?st1] obtain st' where
    r: "run_messages rt ?st1 rest = Some st'"
    and cu: "count_role User st' = count_role User ?st1 + length rest"
    and ca: "count_role Assistant st' \<le> count_role Assistant ?st1 + length rest"
    and fl: "count_role Assistant st' < count_role Assistant ?st1 + length rest \<longrightarrow>
              (\<exists>k<length rest. \<exists>st_k es f.
                  run_messages rt ?st1 (take k rest) = Some st_k \<and>
                  onMessage_begin rt st_k (snd (rest ! k)) = (es, Some f) \<and>
                  isl (fst (rest ! k) (model f) (request f)))"
    by blast
  have run: "run_messages rt st (x # rest) = Some st'"
    using h r by (simp add: x)
  have u1: "count_role User ?st1 = Suc (count_role User st)"
    using alt u by (auto simp: count_role_def)
  have fail0: "\<exists>k<length (x # rest). \<exists>st_k es f.
                  run_messages rt st (take k (x # rest)) = Some st_k \<and>
                  onMessage_begin rt st_k (snd ((x # rest) ! k)) = (es, Some f) \<and>
                  isl (fst ((x # rest) ! k) (model f) (request f))"
    if "isl (ai (model f) (request f))"
    using that b by (intro exI[of _ 0]) (auto simp: x)
  have failk: "\<exists>k<length (x # rest). \<exists>st_k es f.
                  run_messages rt st (take k (x # rest)) = Some st_k \<and>
                  onMessage_begin rt st_k (snd ((x # rest) ! k)) = (es, Some f) \<and>
                  isl (fst ((x # rest) ! k) (model f) (request f))"
    if "\<exists>k<length rest. \<exists>st_k es f.
                  run_messages rt ?st1 (take k rest) = Some st_k \<and>
                  onMessage_begin rt st_k (snd (rest ! k)) = (es, Some f) \<and>
                  isl (fst (rest ! k) (model f) (request f))"
  proof -
    from that obtain k st_k es' f' where k: "k < length rest"
      and rk: "run_messages rt ?st1 (take k rest) = Some st_k"
      and bk: "onMessage_begin rt st_k (snd (rest ! k)) = (es', Some f')"
      and ik: "isl (fst (rest ! k) (model f') (request f'))"
      by blast
    have "run_messages rt st (take (Suc k) (x # rest)) = Some st_k"
      using h rk by (simp add: x)
    with k bk ik show ?thesis
      by (intro exI[of _ "Suc k"]) auto
  qed
  from alt show ?case
  proof
    assume a: "messages ?st1 = messages st @ [u] \<and> isl (ai (model f) (request f))"
    then have a1: "count_role Assistant ?st1 = count_role Assistant st"
      using u by (simp add: count_role_def)
    from a fail0 have "\<exists>k<length (x # rest). \<exists>st_k es f.
                  run_messages rt st (take k (x # rest)) = Some st_k \<and>
                  onMessage_begin rt st_k (snd ((x # rest) ! k)) = (es, Some f) \<and>
                  isl (fst ((x # rest) ! k) (model f) (request f))"
      by blast
    with run cu ca u1 a1 show ?case by simp
  next
    assume "\<exists>a. role a = Assistant \<and> messages ?st1 = messages st @ [u, a]"
    then have a1: "count_role Assistant ?st1 = Suc (count_role Assistant st)"
      using u by (auto simp: count_role_def)
    have "count_role Assistant st' < count_role Assistant st + length (x # rest) \<longrightarrow>
          (\<exists>k<length (x # rest). \<exists>st_k es f.
                  run_messages rt st (take k (x # rest)) = Some st_k \<and>
                  onMessage_begin rt st_k (snd ((x # rest) ! k)) = (es, Some f) \<and>
                  isl (fst ((x # rest) ! k) (model f) (request f)))"
      using fl failk a1 by simp
    with run cu ca u1 a1 show ?case by simp
  qed
qed

section \<open>The worked examples, evaluated\<close>

lemma words_of_seven: "words_of (lit ''one two three four five six seven'') =
   [lit ''one'', lit ''two'', lit ''three'', lit ''four'', lit ''five'', lit ''six'', lit ''seven'']"
  by code_simp

lemma example_parse_user:
  "JSON_parse example_runtime example_user_frame =
     Some (JObject [(lit ''type'', JString (lit ''user'')),
                    (lit ''content'', JString (lit '' hello there ''))])"
  by (simp add: example_runtime_def example_parse_def example_user_frame_def
      example_reset_frame_def lit_def)

lemma example_parse_reset:
  "JSON_parse example_runtime example_reset_frame =
     Some (JObject [(lit ''type'', JString (lit ''reset''))])"
  by (simp add: example_runtime_def example_parse_def)

lemma example_parse_image:
  "JSON_parse example_runtime example_image_frame =
     Some (JObject [(lit ''type'', JString (lit ''user'')),
                    (lit ''content'', JString []),
                    (lit ''imageDataUrl'', JString (lit ''data:image/png;base64,AAAA''))])"
  by (simp add: example_runtime_def example_parse_def example_user_frame_def
      example_reset_frame_def example_image_frame_def lit_def)

lemma example_parse_bad: "JSON_parse example_runtime (lit ''not json'') = None"
  by (simp add: example_runtime_def example_parse_def example_user_frame_def
      example_reset_frame_def example_image_frame_def lit_def)

lemma trim_hello: "trim (lit '' hello there '') = lit ''hello there''"
  by (simp add: trim_def lit_def is_space_def)

lemma example_begin_user:
  "onMessage_begin example_runtime initialState example_user_frame =
     ([SetState \<lparr>messages = [example_user_turn]\<rparr>, AiRun TEXT_MODEL (request example_frame)],
      Some example_frame)"
  apply (simp add: onMessage_begin_def example_parse_user)
  apply (simp add: lit_def)
  apply (simp add: trim_def is_space_def attached_def Let_def initialState_def
     array_slice_def rel_index_def toTextOnlyMessage_def example_frame_def example_user_turn_def lit_def)
  done

lemma example_user_begin:
  "onMessage_begin example_runtime st example_user_frame =
     ([SetState \<lparr>messages = messages st @ [example_user_turn]\<rparr>,
       AiRun TEXT_MODEL (primary_request (messages st @ [example_user_turn]) None)],
      Some \<lparr>nextMessages = messages st @ [example_user_turn],
            userText = lit ''hello there'',
            imageUrl = None,
            model = TEXT_MODEL,
            request = primary_request (messages st @ [example_user_turn]) None\<rparr>)"
proof -
  have g: "get_prop (JObject [(lit ''type'', JString (lit ''user'')),
                    (lit ''content'', JString (lit '' hello there ''))]) (lit ''type'') =
           JString (lit ''user'')"
    by simp
  have c: "get_prop (JObject [(lit ''type'', JString (lit ''user'')),
                    (lit ''content'', JString (lit '' hello there ''))]) (lit ''content'') =
           JString (lit '' hello there '')"
    by (simp add: lit_def)
  have a: "attachment_of (JObject [(lit ''type'', JString (lit ''user'')),
                    (lit ''content'', JString (lit '' hello there ''))]) = None"
    by (simp add: attachment_of_def lit_def)
  have t: "trim (lit '' hello there '') = lit ''hello there''" by (rule trim_hello)
  have ne: "lit ''hello there'' \<noteq> []" by (simp add: lit_def)
  from begin_user[OF example_parse_user g c, of st] t ne
  show ?thesis
    by (simp add: a attached_def user_turn_def example_user_turn_def)
qed

lemma example_image_valid: "isImageDataUrl (JString (lit ''data:image/png;base64,AAAA''))"
  by (simp add: isImageDataUrl_def starts_with_def lit_def is_mime_char_def)

lemma example_begin_image:
  "onMessage_begin example_runtime initialState example_image_frame =
     ([SetState \<lparr>messages = [example_image_turn]\<rparr>,
       AiRun VISION_MODEL (request example_image_frame_state)],
      Some example_image_frame_state)"
proof -
  have t: "lit ''type'' \<noteq> lit ''content''" "lit ''type'' \<noteq> lit ''imageDataUrl''"
    "lit ''content'' \<noteq> lit ''imageDataUrl''" "lit ''user'' \<noteq> lit ''reset''"
    "lit ''data:image/png;base64,AAAA'' \<noteq> []" "lit ''Describe this image.'' \<noteq> []"
    by (simp_all add: lit_def)
  show ?thesis
    by (simp add: onMessage_begin_def example_parse_image t t[symmetric] example_image_valid
        trim_def attached_def Let_def initialState_def array_slice_def rel_index_def
        toAiMessage_def example_image_frame_state_def example_image_turn_def
        example_image_url_def)
qed

lemma example_user_valid: "valid_user_message example_runtime example_user_frame"
  unfolding valid_user_message_iff
  using example_parse_user
  by (simp add: trim_def is_space_def lit_def)

lemma example_image_valid_message: "valid_user_message example_runtime example_image_frame"
  unfolding valid_user_message_iff
  using example_parse_image example_image_valid
  by (simp add: lit_def)

lemma example_image_attachment: "valid_image_attachment example_runtime example_image_frame"
  using example_image_valid
  by (simp add: valid_image_attachment_def example_parse_image) (simp add: lit_def)

lemma example_user_no_attachment: "\<not> valid_image_attachment example_runtime example_user_frame"
  by (simp add: valid_image_attachment_def example_parse_user isImageDataUrl_def)
    (simp add: lit_def isImageDataUrl_def)



lemma example_extract: "extract_reply example_runtime (JObject [(lit ''response'', JString seven_words)]) =
    JString seven_words"
proof -
  have "seven_words \<noteq> []" by (simp add: seven_words_def lit_def)
  moreover have "lit ''response'' \<noteq> lit ''result''" "lit ''response'' \<noteq> lit ''output_text''"
    by (simp_all add: lit_def)
  ultimately show ?thesis
    by (simp add: extract_reply_def js_nullish_def js_and_def js_or_def)
qed

lemma example_step_ok:
  assumes "onMessage example_runtime example_ai_ok st example_user_frame = Some es"
  shows "final_state st es =
           \<lparr>messages = messages st @ [example_user_turn, assistant_turn seven_words]\<rparr>"
proof -
  let ?f = "\<lparr>nextMessages = messages st @ [example_user_turn],
            userText = lit ''hello there'',
            imageUrl = None,
            model = TEXT_MODEL,
            request = primary_request (messages st @ [example_user_turn]) None\<rparr>"
  have "onMessage_resume example_runtime example_ai_ok ?f =
          deliver example_runtime ?f (JString seven_words)"
    by (simp add: onMessage_resume_def example_ai_ok_def example_extract)
  with assms obtain d where d: "deliver example_runtime ?f (JString seven_words) = Some d"
    and es: "es = [SetState \<lparr>messages = messages st @ [example_user_turn]\<rparr>,
       AiRun TEXT_MODEL (primary_request (messages st @ [example_user_turn]) None)] @ d"
    by (auto simp: onMessage_def example_user_begin)
  from deliver_props(1)[OF d] show ?thesis
    by (simp add: es js_String_def)
qed

lemma example_step_down:
  assumes "onMessage example_runtime example_ai_down st example_user_frame = Some es"
  shows "final_state st es = \<lparr>messages = messages st @ [example_user_turn]\<rparr>"
  using assms
  by (auto simp: onMessage_def example_user_begin onMessage_resume_def example_ai_down_def)

lemma example_extract_fallback:
  "extract_fallback_reply example_runtime (JObject [(lit ''description'', JString seven_words)]) =
     JString seven_words"
proof -
  have "seven_words \<noteq> []" by (simp add: seven_words_def lit_def)
  moreover have "lit ''description'' \<noteq> lit ''response''" "lit ''description'' \<noteq> lit ''result''"
    "lit ''description'' \<noteq> lit ''output_text''"
    by (simp_all add: lit_def)
  ultimately show ?thesis
    by (simp add: extract_fallback_reply_def js_nullish_def js_and_def js_or_def)
qed

lemma example_fallback_models: "VISION_MODEL \<noteq> VISION_FALLBACK_MODEL"
  by (simp add: VISION_MODEL_def VISION_FALLBACK_MODEL_def lit_def)

lemma example_user_begin_twice:
  "onMessage_begin example_runtime \<lparr>messages = [example_user_turn]\<rparr> example_user_frame =
     ([SetState \<lparr>messages = [example_user_turn, example_user_turn]\<rparr>,
       AiRun TEXT_MODEL (primary_request [example_user_turn, example_user_turn] None)],
      Some \<lparr>nextMessages = [example_user_turn, example_user_turn],
            userText = lit ''hello there'',
            imageUrl = None,
            model = TEXT_MODEL,
            request = primary_request [example_user_turn, example_user_turn] None\<rparr>)"
  using example_user_begin[of "\<lparr>messages = [example_user_turn]\<rparr>"] by simp

lemma example_unlicensed_hint:
  "str_includes (error_message example_runtime
       (ErrorObj (lit ''5016: please submit the prompt 'agree' first''))) license_hint"
  by (simp add: error_message_def license_hint_def lit_def)

section \<open>The claims\<close>

text \<open>
  C1, amended. From the initial state, after \<open>N\<close> valid \<open>user\<close> messages handled one after
  the other, each handler run to its end before the next message is handled and no \<open>reset\<close>
  among them, the run returns and the persisted history has exactly \<open>N\<close> turns of role
  \<open>user\<close> and at most \<open>N\<close> turns of role \<open>assistant\<close>; when it has fewer than \<open>N\<close> assistant
  turns, the call of the primary model failed for one of the messages (the \<open>k\<close>-th, in the
  state that the first \<open>k\<close> messages left).
\<close>

theorem history_counts:
  assumes "\<forall>(ai, message)\<in>set inputs. valid_user_message rt message"
  shows "\<exists>st'.
           run_messages rt initialState inputs = Some st' \<and>
           count_role User st' = length inputs \<and>
           count_role Assistant st' \<le> length inputs \<and>
           (count_role Assistant st' < length inputs \<longrightarrow>
              (\<exists>k<length inputs. \<exists>st_k es f.
                  run_messages rt initialState (take k inputs) = Some st_k \<and>
                  onMessage_begin rt st_k (snd (inputs ! k)) = (es, Some f) \<and>
                  isl (fst (inputs ! k) (model f) (request f))))"
  using run_counts[OF assms, of initialState]
  by (simp add: count_role_def initialState_def)

theorem history_counts_witness:
  "valid_user_message example_runtime example_user_frame \<and>
   (\<exists>st'. run_messages example_runtime initialState
            [(example_ai_ok, example_user_frame), (example_ai_down, example_user_frame)] = Some st' \<and>
          st' = \<lparr>messages = [example_user_turn, assistant_turn seven_words, example_user_turn]\<rparr> \<and>
          count_role User st' = 2 \<and>
          count_role Assistant st' = 1 \<and>
          (\<exists>k<2. \<exists>st_k es f.
              run_messages example_runtime initialState
                (take k [(example_ai_ok, example_user_frame), (example_ai_down, example_user_frame)]) =
                Some st_k \<and>
              onMessage_begin example_runtime st_k
                (snd ([(example_ai_ok, example_user_frame), (example_ai_down, example_user_frame)] ! k)) =
                (es, Some f) \<and>
              isl (fst ([(example_ai_ok, example_user_frame), (example_ai_down, example_user_frame)] ! k)
                     (model f) (request f))))"
proof -
  let ?inputs = "[(example_ai_ok, example_user_frame), (example_ai_down, example_user_frame)]"
  have v: "\<forall>(ai, message)\<in>set ?inputs. valid_user_message example_runtime message"
    by (simp add: example_user_valid)
  obtain es1 where e1: "onMessage example_runtime example_ai_ok initialState example_user_frame = Some es1"
    using onMessage_total by blast
  let ?s1 = "\<lparr>messages = [example_user_turn, assistant_turn seven_words]\<rparr>"
  have s1: "final_state initialState es1 = ?s1"
    using example_step_ok[OF e1] by (simp add: initialState_def)
  obtain es2 where e2: "onMessage example_runtime example_ai_down ?s1 example_user_frame = Some es2"
    using onMessage_total by blast
  let ?s2 = "\<lparr>messages = [example_user_turn, assistant_turn seven_words, example_user_turn]\<rparr>"
  have s2: "final_state ?s1 es2 = ?s2"
    using example_step_down[OF e2] by simp
  have run: "run_messages example_runtime initialState ?inputs = Some ?s2"
    by (simp add: e1 s1 e2 s2)
  have cu: "count_role User ?s2 = 2" and ca: "count_role Assistant ?s2 = 1"
    by (simp_all add: count_role_def example_user_turn_def assistant_turn_def)
  from history_counts [OF v] run cu ca
  have "\<exists>k<length ?inputs. \<exists>st_k es f.
              run_messages example_runtime initialState (take k ?inputs) = Some st_k \<and>
              onMessage_begin example_runtime st_k (snd (?inputs ! k)) = (es, Some f) \<and>
              isl (fst (?inputs ! k) (model f) (request f))"
    by auto
  then have "\<exists>k<2. \<exists>st_k es f.
              run_messages example_runtime initialState (take k ?inputs) = Some st_k \<and>
              onMessage_begin example_runtime st_k (snd (?inputs ! k)) = (es, Some f) \<and>
              isl (fst (?inputs ! k) (model f) (request f))"
    by (simp add: numeral_2_eq_2)
  with example_user_valid run cu ca show ?thesis by blast
qed

text \<open>
  C1 as stated, for every sequence of valid \<open>user\<close> messages with no \<open>reset\<close>, does not hold
  of handlers that overlap. The second of two valid \<open>user\<close> messages is handled while the
  first handler waits at line 95 for its model call; every model call returns. The second
  handler persists both user turns and its reply; the first handler, resumed last, appends
  its reply to the history it captured (line 157) and persists that (line 158). The
  persisted history then has one user turn and one assistant turn after two messages.
\<close>

theorem history_counts_counterexample:
  "valid_user_message example_runtime example_user_frame \<and>
   onMessage_begin example_runtime initialState example_user_frame =
     ([SetState \<lparr>messages = [example_user_turn]\<rparr>, AiRun TEXT_MODEL (request example_frame)],
      Some example_frame) \<and>
   onMessage_begin example_runtime \<lparr>messages = [example_user_turn]\<rparr> example_user_frame =
     ([SetState \<lparr>messages = [example_user_turn, example_user_turn]\<rparr>,
       AiRun TEXT_MODEL (primary_request [example_user_turn, example_user_turn] None)],
      Some \<lparr>nextMessages = [example_user_turn, example_user_turn],
            userText = lit ''hello there'',
            imageUrl = None,
            model = TEXT_MODEL,
            request = primary_request [example_user_turn, example_user_turn] None\<rparr>) \<and>
   example_ai_ok TEXT_MODEL (request example_frame) =
     Inr (JObject [(lit ''response'', JString seven_words)]) \<and>
   example_ai_ok TEXT_MODEL (primary_request [example_user_turn, example_user_turn] None) =
     Inr (JObject [(lit ''response'', JString seven_words)]) \<and>
   run_overlapping example_runtime initialState
     (example_ai_ok, example_user_frame) (example_ai_ok, example_user_frame) =
     Some \<lparr>messages = [example_user_turn, assistant_turn seven_words]\<rparr> \<and>
   count_role User \<lparr>messages = [example_user_turn, assistant_turn seven_words]\<rparr> = 1 \<and>
   count_role User \<lparr>messages = [example_user_turn, assistant_turn seven_words]\<rparr> \<noteq>
     length [(example_ai_ok, example_user_frame), (example_ai_ok, example_user_frame)]"
proof -
  let ?s1 = "\<lparr>messages = [example_user_turn]\<rparr>"
  obtain esB where eB: "onMessage example_runtime example_ai_ok ?s1 example_user_frame = Some esB"
    using onMessage_total by blast
  have sB: "final_state ?s1 esB =
      \<lparr>messages = [example_user_turn, example_user_turn, assistant_turn seven_words]\<rparr>"
    using example_step_ok[OF eB] by simp
  have "onMessage_resume example_runtime example_ai_ok example_frame =
          deliver example_runtime example_frame (JString seven_words)"
    by (simp add: onMessage_resume_def example_ai_ok_def example_extract)
  then obtain postA where pA: "onMessage_resume example_runtime example_ai_ok example_frame = Some postA"
    and dA: "deliver example_runtime example_frame (JString seven_words) = Some postA"
    using deliver_total[of example_runtime example_frame "JString seven_words"] by auto
  have fA: "final_state st' postA = \<lparr>messages = [example_user_turn, assistant_turn seven_words]\<rparr>"
    for st'
    using deliver_props(1)[OF dA, of st'] by (simp add: js_String_def example_frame_def)
  have run: "run_overlapping example_runtime initialState
     (example_ai_ok, example_user_frame) (example_ai_ok, example_user_frame) =
     Some \<lparr>messages = [example_user_turn, assistant_turn seven_words]\<rparr>"
    by (simp add: run_overlapping_def example_begin_user eB pA fA)
  have cu: "count_role User \<lparr>messages = [example_user_turn, assistant_turn seven_words]\<rparr> = 1"
    by (simp add: count_role_def example_user_turn_def assistant_turn_def)
  have ok: "example_ai_ok TEXT_MODEL r = Inr (JObject [(lit ''response'', JString seven_words)])" for r
    by (simp add: example_ai_ok_def)
  from example_user_valid example_begin_user example_user_begin_twice ok run cu
  show ?thesis by simp
qed



text \<open>
  C3. When the model call of a \<open>user\<close> message succeeds (the primary call returns, or it
  fails with the license hint with an image attached and the fallback call returns), the
  resumed handler persists exactly one state: the history captured before the call, which is
  the previous messages and the new user turn, with one assistant turn appended that
  carries the reply text. This is the persisted state after the handler whatever the state
  was when the handler resumed. So a \<open>reset\<close> handled between the call and its answer
  empties the history, and the resumed handler writes the user and assistant pair over the
  empty history.
\<close>

theorem in_flight_reply_overwrites:
  assumes "onMessage_begin rt st message = (es, Some f)"
    and "(ai (model f) (request f) = Inr resp \<and> assistantText = extract_reply rt resp) \<or>
       (ai (model f) (request f) = Inl err \<and> imageUrl f = Some url \<and> url \<noteq> [] \<and>
        str_includes (error_message rt err) license_hint \<and>
        ai VISION_FALLBACK_MODEL (PromptRequest (fallback_prompt (userText f)) url) = Inr resp \<and>
        assistantText = extract_fallback_reply rt resp)"
  shows "\<exists>u a post.
           role u = User \<and>
           a = \<lparr>role = Assistant, content = js_String rt assistantText, imageDataUrl = None\<rparr> \<and>
           nextMessages f = messages st @ [u] \<and>
           final_state st es = \<lparr>messages = messages st @ [u]\<rparr> \<and>
           onMessage_resume rt ai f = Some post \<and>
           onMessage rt ai st message = Some (es @ post) \<and>
           SetState \<lparr>messages = messages st @ [u] @ [a]\<rparr> \<in> set post \<and>
           (\<forall>s. SetState s \<in> set post \<longrightarrow> s = \<lparr>messages = messages st @ [u] @ [a]\<rparr>) \<and>
           (\<forall>st'. final_state st' post = \<lparr>messages = messages st @ [u] @ [a]\<rparr>) \<and>
           (\<forall>frame payload ai2.
              JSON_parse rt frame = Some payload \<and>
              get_prop payload (lit ''type'') = JString (lit ''reset'') \<longrightarrow>
              (\<exists>mid. onMessage rt ai2 (final_state st es) frame = Some mid \<and>
                     final_state st (es @ mid) = \<lparr>messages = []\<rparr> \<and>
                     final_state st (es @ mid @ post) = \<lparr>messages = messages st @ [u] @ [a]\<rparr>))"
proof -
  from assms(1) obtain payload c where
    n: "nextMessages f = messages st @ [user_turn (trim c) (attachment_of payload)]"
    and es: "es = [SetState \<lparr>messages = nextMessages f\<rparr>, AiRun (model f) (request f)]"
    by (rule begin_shape)
  let ?u = "user_turn (trim c) (attachment_of payload)"
  let ?a = "\<lparr>role = Assistant, content = js_String rt assistantText, imageDataUrl = None\<rparr>"
  let ?st2 = "\<lparr>messages = messages st @ [?u] @ [?a]\<rparr>"
  from resume_success[OF assms(2)] obtain pre d where
    r: "onMessage_resume rt ai f = Some (pre @ d)"
    and d: "deliver rt f assistantText = Some d"
    and pre: "\<forall>e\<in>set pre. \<exists>m r. e = AiRun m r"
    by blast
  have full: "\<lparr>messages = nextMessages f @ [assistant_turn (js_String rt assistantText)]\<rparr> = ?st2"
    by (simp add: n assistant_turn_def)
  have mem: "SetState ?st2 \<in> set (pre @ d)"
    using deliver_first[OF d] full by simp
  have only: "s = ?st2" if "SetState s \<in> set (pre @ d)" for s
  proof -
    from that pre have "SetState s \<in> set d" by auto
    from deliver_props(2)[OF d this] full show ?thesis by simp
  qed
  have ind: "final_state st' (pre @ d) = ?st2" for st'
  proof -
    have "final_state st' (pre @ d) = final_state st' d"
      using pre by (rule final_state_AiRun_prefix)
    also have "\<dots> = ?st2" using deliver_props(1)[OF d, of st'] full by simp
    finally show ?thesis .
  qed
  have reset: "\<exists>mid. onMessage rt ai2 (final_state st es) frame = Some mid \<and>
                     final_state st (es @ mid) = \<lparr>messages = []\<rparr> \<and>
                     final_state st (es @ mid @ (pre @ d)) = ?st2"
    if "JSON_parse rt frame = Some payload'"
      and "get_prop payload' (lit ''type'') = JString (lit ''reset'')"
    for frame payload' ai2
  proof -
    have "onMessage rt ai2 (final_state st es) frame =
            Some [SetState \<lparr>messages = []\<rparr>, Send (History [])]"
      using that by (simp add: onMessage_def onMessage_begin_def)
    moreover have "final_state st (es @ [SetState \<lparr>messages = []\<rparr>, Send (History [])]) =
            \<lparr>messages = []\<rparr>"
      by (simp add: final_state_append)
    moreover have "final_state st (es @ [SetState \<lparr>messages = []\<rparr>, Send (History [])] @ (pre @ d)) = ?st2"
      using ind by (simp add: final_state_append)
    ultimately show ?thesis by blast
  qed
  have "role ?u = User" by (simp add: user_turn_def)
  moreover have "final_state st es = \<lparr>messages = messages st @ [?u]\<rparr>"
    by (simp add: es n)
  moreover note n r onMessage_Some[OF assms(1) r] mem
  moreover have "\<forall>s. SetState s \<in> set (pre @ d) \<longrightarrow> s = ?st2" using only by blast
  moreover have "\<forall>st'. final_state st' (pre @ d) = ?st2" using ind by blast
  moreover have "\<forall>frame payload ai2.
              JSON_parse rt frame = Some payload \<and>
              get_prop payload (lit ''type'') = JString (lit ''reset'') \<longrightarrow>
              (\<exists>mid. onMessage rt ai2 (final_state st es) frame = Some mid \<and>
                     final_state st (es @ mid) = \<lparr>messages = []\<rparr> \<and>
                     final_state st (es @ mid @ (pre @ d)) = ?st2)"
    using reset by blast
  ultimately show ?thesis
    by (intro exI[of _ ?u] exI[of _ ?a] exI[of _ "pre @ d"]) blast
qed

theorem in_flight_reply_overwrites_witness:
  "onMessage_begin example_runtime initialState example_user_frame =
     ([SetState \<lparr>messages = [example_user_turn]\<rparr>, AiRun TEXT_MODEL (request example_frame)],
      Some example_frame) \<and>
   example_ai_ok (model example_frame) (request example_frame) =
     Inr (JObject [(lit ''response'', JString seven_words)]) \<and>
   (\<exists>post.
      onMessage_resume example_runtime example_ai_ok example_frame = Some post \<and>
      SetState \<lparr>messages = [example_user_turn, assistant_turn seven_words]\<rparr> \<in> set post \<and>
      (\<exists>mid.
         onMessage example_runtime example_ai_down \<lparr>messages = [example_user_turn]\<rparr>
           example_reset_frame = Some mid \<and>
         final_state initialState
           ([SetState \<lparr>messages = [example_user_turn]\<rparr>,
             AiRun TEXT_MODEL (request example_frame)] @ mid) = \<lparr>messages = []\<rparr> \<and>
         final_state initialState
           ([SetState \<lparr>messages = [example_user_turn]\<rparr>,
             AiRun TEXT_MODEL (request example_frame)] @ mid @ post) =
           \<lparr>messages = [example_user_turn, assistant_turn seven_words]\<rparr>)) \<and>
   onMessage_begin example_runtime initialState example_image_frame =
     ([SetState \<lparr>messages = [example_image_turn]\<rparr>,
       AiRun VISION_MODEL (request example_image_frame_state)],
      Some example_image_frame_state) \<and>
   example_ai_fallback_ok (model example_image_frame_state) (request example_image_frame_state) =
     Inl (ErrorObj (lit ''5016: please submit the prompt 'agree' first'')) \<and>
   example_ai_fallback_ok VISION_FALLBACK_MODEL
     (PromptRequest (fallback_prompt (userText example_image_frame_state)) example_image_url) =
     Inr (JObject [(lit ''description'', JString seven_words)]) \<and>
   (\<exists>post.
      onMessage_resume example_runtime example_ai_fallback_ok example_image_frame_state = Some post \<and>
      SetState \<lparr>messages = [example_image_turn, assistant_turn seven_words]\<rparr> \<in> set post \<and>
      (\<forall>st'. final_state st' post =
              \<lparr>messages = [example_image_turn, assistant_turn seven_words]\<rparr>))"
proof -
  let ?es = "[SetState \<lparr>messages = [example_user_turn]\<rparr>, AiRun TEXT_MODEL (request example_frame)]"
  let ?st2 = "\<lparr>messages = [example_user_turn, assistant_turn seven_words]\<rparr>"
  have ok: "example_ai_ok (model example_frame) (request example_frame) =
     Inr (JObject [(lit ''response'', JString seven_words)])"
    by (simp add: example_ai_ok_def)
  have h1: "(example_ai_ok (model example_frame) (request example_frame) =
          Inr (JObject [(lit ''response'', JString seven_words)]) \<and>
        JString seven_words =
          extract_reply example_runtime (JObject [(lit ''response'', JString seven_words)])) \<or>
       (example_ai_ok (model example_frame) (request example_frame) = Inl err \<and>
        imageUrl example_frame = Some url \<and> url \<noteq> [] \<and>
        str_includes (error_message example_runtime err) license_hint \<and>
        example_ai_ok VISION_FALLBACK_MODEL
          (PromptRequest (fallback_prompt (userText example_frame)) url) =
          Inr (JObject [(lit ''response'', JString seven_words)]) \<and>
        JString seven_words =
          extract_fallback_reply example_runtime (JObject [(lit ''response'', JString seven_words)]))"
    for err url
    using ok example_extract by simp
  have g: "get_prop (JObject [(lit ''type'', JString (lit ''reset''))]) (lit ''type'') =
     JString (lit ''reset'')"
    by simp
  have fs: "final_state initialState ?es = \<lparr>messages = [example_user_turn]\<rparr>"
    by simp
  from in_flight_reply_overwrites [where ai = example_ai_ok, OF example_begin_user h1]
  obtain u a post where
    a: "a = \<lparr>role = Assistant, content = js_String example_runtime (JString seven_words),
              imageDataUrl = None\<rparr>"
    and n: "nextMessages example_frame = messages initialState @ [u]"
    and p: "onMessage_resume example_runtime example_ai_ok example_frame = Some post"
    and s: "SetState \<lparr>messages = messages initialState @ [u] @ [a]\<rparr> \<in> set post"
    and rs: "\<forall>frame payload ai2.
              JSON_parse example_runtime frame = Some payload \<and>
              get_prop payload (lit ''type'') = JString (lit ''reset'') \<longrightarrow>
              (\<exists>mid. onMessage example_runtime ai2 (final_state initialState ?es) frame = Some mid \<and>
                     final_state initialState (?es @ mid) = \<lparr>messages = []\<rparr> \<and>
                     final_state initialState (?es @ mid @ post) =
                       \<lparr>messages = messages initialState @ [u] @ [a]\<rparr>)"
    by blast
  from n have u: "u = example_user_turn" by (simp add: example_frame_def initialState_def)
  from a have a': "a = assistant_turn seven_words" by (simp add: js_String_def assistant_turn_def)
  have st2: "\<lparr>messages = messages initialState @ [u] @ [a]\<rparr> = ?st2"
    by (simp add: u a' initialState_def)
  from rs example_parse_reset g
  have "\<exists>mid. onMessage example_runtime example_ai_down (final_state initialState ?es)
                 example_reset_frame = Some mid \<and>
               final_state initialState (?es @ mid) = \<lparr>messages = []\<rparr> \<and>
               final_state initialState (?es @ mid @ post) = ?st2"
    unfolding st2 by blast
  with p s have first: "\<exists>post.
      onMessage_resume example_runtime example_ai_ok example_frame = Some post \<and>
      SetState ?st2 \<in> set post \<and>
      (\<exists>mid.
         onMessage example_runtime example_ai_down \<lparr>messages = [example_user_turn]\<rparr>
           example_reset_frame = Some mid \<and>
         final_state initialState (?es @ mid) = \<lparr>messages = []\<rparr> \<and>
         final_state initialState (?es @ mid @ post) = ?st2)"
    unfolding st2 fs by blast
  let ?fi = example_image_frame_state
  have m: "model ?fi = VISION_MODEL" and iu: "imageUrl ?fi = Some example_image_url"
    by (simp_all add: example_image_frame_state_def)
  have une: "example_image_url \<noteq> []" by (simp add: example_image_url_def lit_def)
  have e1: "example_ai_fallback_ok (model ?fi) (request ?fi) =
     Inl (ErrorObj (lit ''5016: please submit the prompt 'agree' first''))"
    by (simp add: example_ai_fallback_ok_def m example_fallback_models)
  have e2: "example_ai_fallback_ok VISION_FALLBACK_MODEL
     (PromptRequest (fallback_prompt (userText ?fi)) example_image_url) =
     Inr (JObject [(lit ''description'', JString seven_words)])"
    by (simp add: example_ai_fallback_ok_def)
  have h2: "(example_ai_fallback_ok (model ?fi) (request ?fi) =
          Inr (JObject [(lit ''description'', JString seven_words)]) \<and>
        JString seven_words =
          extract_reply example_runtime (JObject [(lit ''description'', JString seven_words)])) \<or>
       (example_ai_fallback_ok (model ?fi) (request ?fi) =
          Inl (ErrorObj (lit ''5016: please submit the prompt 'agree' first'')) \<and>
        imageUrl ?fi = Some example_image_url \<and> example_image_url \<noteq> [] \<and>
        str_includes (error_message example_runtime
          (ErrorObj (lit ''5016: please submit the prompt 'agree' first''))) license_hint \<and>
        example_ai_fallback_ok VISION_FALLBACK_MODEL
          (PromptRequest (fallback_prompt (userText ?fi)) example_image_url) =
          Inr (JObject [(lit ''description'', JString seven_words)]) \<and>
        JString seven_words =
          extract_fallback_reply example_runtime (JObject [(lit ''description'', JString seven_words)]))"
    using e1 e2 iu une example_unlicensed_hint example_extract_fallback by simp
  from in_flight_reply_overwrites [where ai = example_ai_fallback_ok, OF example_begin_image h2]
  obtain u2 a2 post2 where
    a2: "a2 = \<lparr>role = Assistant, content = js_String example_runtime (JString seven_words),
              imageDataUrl = None\<rparr>"
    and n2: "nextMessages ?fi = messages initialState @ [u2]"
    and p2: "onMessage_resume example_runtime example_ai_fallback_ok ?fi = Some post2"
    and s2: "SetState \<lparr>messages = messages initialState @ [u2] @ [a2]\<rparr> \<in> set post2"
    and i2: "\<forall>st'. final_state st' post2 = \<lparr>messages = messages initialState @ [u2] @ [a2]\<rparr>"
    by blast
  from n2 have u2: "u2 = example_image_turn"
    by (simp add: example_image_frame_state_def initialState_def)
  from a2 have a2': "a2 = assistant_turn seven_words"
    by (simp add: js_String_def assistant_turn_def)
  have st3: "\<lparr>messages = messages initialState @ [u2] @ [a2]\<rparr> =
      \<lparr>messages = [example_image_turn, assistant_turn seven_words]\<rparr>"
    by (simp add: u2 a2' initialState_def)
  from p2 s2 i2 have second: "\<exists>post.
      onMessage_resume example_runtime example_ai_fallback_ok ?fi = Some post \<and>
      SetState \<lparr>messages = [example_image_turn, assistant_turn seven_words]\<rparr> \<in> set post \<and>
      (\<forall>st'. final_state st' post =
              \<lparr>messages = [example_image_turn, assistant_turn seven_words]\<rparr>)"
    unfolding st3 by blast
  from example_begin_user ok first example_begin_image e1 e2 second
  show ?thesis by blast
qed

text \<open>
  C4. \<open>onConnect\<close> sends exactly one message, a \<open>history\<close> with the last
  \<open>min(50, length)\<close> stored turns in their stored order, and sets no state.
\<close>

theorem connect_sends_recent_history:
  "\<exists>older recent.
     onConnect st = [Send (History recent)] \<and>
     messages st = older @ recent \<and>
     length recent = min 50 (length (messages st)) \<and>
     final_state st (onConnect st) = st"
proof -
  have "array_slice (- 50) None (messages st) = drop (length (messages st) - 50) (messages st)"
    using array_slice_last[of 50 "messages st"] by simp
  then have c: "onConnect st = [Send (History (drop (length (messages st) - 50) (messages st)))]"
    by (simp add: onConnect_def)
  have "messages st = take (length (messages st) - 50) (messages st) @
          drop (length (messages st) - 50) (messages st)"
    by simp
  moreover have "length (drop (length (messages st) - 50) (messages st)) =
          min 50 (length (messages st))"
    by simp
  moreover have "final_state st (onConnect st) = st"
    by (simp add: c)
  ultimately show ?thesis using c by blast
qed

theorem connect_sends_recent_history_witness:
  "onConnect \<lparr>messages = example_image_turn # replicate 50 example_user_turn\<rparr> =
     [Send (History (replicate 50 example_user_turn))] \<and>
   final_state \<lparr>messages = example_image_turn # replicate 50 example_user_turn\<rparr>
     (onConnect \<lparr>messages = example_image_turn # replicate 50 example_user_turn\<rparr>) =
     \<lparr>messages = example_image_turn # replicate 50 example_user_turn\<rparr>"
proof -
  let ?st = "\<lparr>messages = example_image_turn # replicate 50 example_user_turn\<rparr>"
  from connect_sends_recent_history [of ?st] obtain older recent where
    c: "onConnect ?st = [Send (History recent)]"
    and m: "messages ?st = older @ recent"
    and l: "length recent = min 50 (length (messages ?st))"
    and f: "final_state ?st (onConnect ?st) = ?st"
    by blast
  from l have l50: "length recent = 50" by simp
  from m have "length older + length recent = 51"
    by (metis length_append length_Cons length_replicate ChatState.select_convs(1) eval_nat_numeral(3) numeral_Bit1 add.commute add_Suc_right One_nat_def)
  with l50 have "length older = 1" by simp
  then obtain x where "older = [x]" by (cases older) auto
  with m have "recent = replicate 50 example_user_turn" by simp
  with c f show ?thesis by simp
qed

text \<open>
  C5. A frame that parses to a value with \<open>type = reset\<close> makes the handler return with
  the persisted messages empty, exactly one message sent, a \<open>history\<close> with the empty
  list, and no call of a model, whatever the state before.
\<close>

theorem reset_clears_history:
  assumes "JSON_parse rt message = Some payload"
    and "get_prop payload (lit ''type'') = JString (lit ''reset'')"
  shows "\<exists>es. onMessage rt ai st message = Some es \<and>
              final_state st es = \<lparr>messages = []\<rparr> \<and>
              sent es = [History []] \<and>
              ai_calls es = []"
  using assms by (simp add: onMessage_def onMessage_begin_def)

theorem reset_clears_history_witness:
  "JSON_parse example_runtime example_reset_frame =
     Some (JObject [(lit ''type'', JString (lit ''reset''))]) \<and>
   get_prop (JObject [(lit ''type'', JString (lit ''reset''))]) (lit ''type'') =
     JString (lit ''reset'') \<and>
   (\<exists>es. onMessage example_runtime example_ai_ok \<lparr>messages = [example_user_turn]\<rparr>
             example_reset_frame = Some es \<and>
         final_state \<lparr>messages = [example_user_turn]\<rparr> es = \<lparr>messages = []\<rparr> \<and>
         sent es = [History []] \<and> ai_calls es = [])"
proof -
  have g: "get_prop (JObject [(lit ''type'', JString (lit ''reset''))]) (lit ''type'') =
     JString (lit ''reset'')"
    by simp
  from reset_clears_history [OF example_parse_reset g, of example_ai_ok
      "\<lparr>messages = [example_user_turn]\<rparr>"] example_parse_reset g
  show ?thesis by blast
qed

text \<open>
  C6. When the call of the primary model fails and it is not the case that an image is
  attached and the error message has the license hint, the handler sends the fixed retry
  text in an \<open>assistant_done\<close> and in an \<open>assistant\<close> message and returns: it sends
  nothing else, calls no other model, and the persisted history ends with the user turn,
  with no assistant turn.
\<close>

theorem generic_failure_reply:
  assumes "onMessage_begin rt st message = (es, Some f)"
    and "ai (model f) (request f) = Inl err"
    and "\<not> (attached (imageUrl f) \<and> str_includes (error_message rt err) license_hint)"
  shows "\<exists>u all.
           role u = User \<and>
           all = es @ [Send (AssistantDone generic_failure_text),
                       Send (AssistantMsg generic_failure_text)] \<and>
           onMessage rt ai st message = Some all \<and>
           sent all = [AssistantDone generic_failure_text, AssistantMsg generic_failure_text] \<and>
           ai_calls all = [(model f, request f)] \<and>
           final_state st all = \<lparr>messages = messages st @ [u]\<rparr>"
proof -
  from assms(1) obtain payload c where
    n: "nextMessages f = messages st @ [user_turn (trim c) (attachment_of payload)]"
    and es: "es = [SetState \<lparr>messages = nextMessages f\<rparr>, AiRun (model f) (request f)]"
    by (rule begin_shape)
  let ?all = "es @ [Send (AssistantDone generic_failure_text),
                    Send (AssistantMsg generic_failure_text)]"
  have "onMessage rt ai st message = Some ?all"
    using assms(1) resume_generic[where ai = ai and f = f and rt = rt, OF assms(2,3)]
    by (rule onMessage_Some)
  moreover have "role (user_turn (trim c) (attachment_of payload)) = User"
    by (simp add: user_turn_def)
  moreover have "sent ?all = [AssistantDone generic_failure_text, AssistantMsg generic_failure_text]"
    and "ai_calls ?all = [(model f, request f)]"
    and "final_state st ?all = \<lparr>messages = messages st @ [user_turn (trim c) (attachment_of payload)]\<rparr>"
    by (simp_all add: es n)
  ultimately show ?thesis by blast
qed

theorem generic_failure_reply_witness:
  "onMessage_begin example_runtime initialState example_user_frame =
     ([SetState \<lparr>messages = [example_user_turn]\<rparr>, AiRun TEXT_MODEL (request example_frame)],
      Some example_frame) \<and>
   example_ai_down (model example_frame) (request example_frame) =
     Inl (ErrorObj (lit ''network down'')) \<and>
   \<not> (attached (imageUrl example_frame) \<and>
      str_includes (error_message example_runtime (ErrorObj (lit ''network down''))) license_hint) \<and>
   onMessage example_runtime example_ai_down initialState example_user_frame =
     Some [SetState \<lparr>messages = [example_user_turn]\<rparr>,
           AiRun TEXT_MODEL (request example_frame),
           Send (AssistantDone generic_failure_text),
           Send (AssistantMsg generic_failure_text)] \<and>
   final_state initialState
     [SetState \<lparr>messages = [example_user_turn]\<rparr>,
      AiRun TEXT_MODEL (request example_frame),
      Send (AssistantDone generic_failure_text),
      Send (AssistantMsg generic_failure_text)] = \<lparr>messages = [example_user_turn]\<rparr>"
proof -
  have a: "example_ai_down (model example_frame) (request example_frame) =
     Inl (ErrorObj (lit ''network down''))"
    by (simp add: example_ai_down_def)
  have n: "\<not> (attached (imageUrl example_frame) \<and>
      str_includes (error_message example_runtime (ErrorObj (lit ''network down''))) license_hint)"
    by (simp add: attached_def example_frame_def)
  from generic_failure_reply [where ai = example_ai_down, OF example_begin_user a n] example_begin_user a n
  show ?thesis by auto
qed

text \<open>
  C7. When the call of the primary model fails with an error message that has the license
  hint and an image is attached, the handler calls the fallback vision model exactly once,
  with a prompt made of the system instruction, a blank line, \<open>User request:\<close> and the
  trimmed user text (or the placeholder), and with the attached image as it came; the
  models called are the vision model and then the fallback model, no other. When the
  fallback call fails too, the handler sends the fixed text about accepting the license,
  in an \<open>assistant_done\<close> and in an \<open>assistant\<close> message, and persists no assistant turn.
\<close>

theorem license_failure_fallback:
  assumes "onMessage_begin rt st message = (es, Some f)"
    and "JSON_parse rt message = Some payload"
    and "get_prop payload (lit ''content'') = JString c"
    and "ai (model f) (request f) = Inl err"
    and "attached (imageUrl f)"
    and "str_includes (error_message rt err) license_hint"
  shows "\<exists>url post.
           get_prop payload (lit ''imageDataUrl'') = JString url \<and>
           isImageDataUrl (JString url) \<and>
           onMessage rt ai st message = Some (es @ post) \<and>
           ai_calls (es @ post) =
             [(VISION_MODEL, request f),
              (VISION_FALLBACK_MODEL,
               PromptRequest
                 (system_prompt @ [0x0A, 0x0A] @ lit ''User request: '' @
                  (if trim c \<noteq> [] then trim c else lit ''Describe this image.''))
                 url)] \<and>
           (isl (ai VISION_FALLBACK_MODEL
                  (PromptRequest
                     (system_prompt @ [0x0A, 0x0A] @ lit ''User request: '' @
                      (if trim c \<noteq> [] then trim c else lit ''Describe this image.''))
                     url)) \<longrightarrow>
            sent (es @ post) =
              [AssistantDone license_failure_text, AssistantMsg license_failure_text] \<and>
            final_state st (es @ post) = \<lparr>messages = nextMessages f\<rparr>)"
proof -
  from assms(1) obtain payload' c' where
    p: "JSON_parse rt message = Some payload'"
    and c: "get_prop payload' (lit ''content'') = JString c'"
    and ut: "userText f = trim c'"
    and img: "imageUrl f = attachment_of payload'"
    and m: "model f = (if attached (attachment_of payload') then VISION_MODEL else TEXT_MODEL)"
    and es: "es = [SetState \<lparr>messages = nextMessages f\<rparr>, AiRun (model f) (request f)]"
    by (rule begin_shape)
  from p assms(2) have [simp]: "payload' = payload" by simp
  from c assms(3) have [simp]: "c' = c" by simp
  from assms(5) img obtain url where url: "imageUrl f = Some url" "url \<noteq> []"
    by (auto simp: attached_def split: option.splits)
  with img have a: "attachment_of payload = Some url" by simp
  then have g: "get_prop payload (lit ''imageDataUrl'') = JString url"
    and v: "isImageDataUrl (JString url)"
    by (auto simp: attachment_of_def split: js_value.splits if_splits)
  from m assms(5) img have mv: "model f = VISION_MODEL" by simp
  let ?req = "PromptRequest
                 (system_prompt @ [0x0A, 0x0A] @ lit ''User request: '' @
                  (if trim c \<noteq> [] then trim c else lit ''Describe this image.''))
                 url"
  have fp: "PromptRequest (fallback_prompt (userText f)) url = ?req"
    by (simp add: fallback_prompt_def ut)
  note r = resume_fallback[where ai = ai and f = f and rt = rt, OF assms(4) url assms(6),
      unfolded fp]
  show ?thesis
  proof (cases "ai VISION_FALLBACK_MODEL ?req")
    case (Inl err2)
    with r have post: "onMessage_resume rt ai f =
        Some [AiRun VISION_FALLBACK_MODEL ?req,
              Send (AssistantDone license_failure_text),
              Send (AssistantMsg license_failure_text)]"
      by simp
    from onMessage_Some[OF assms(1) post] g v show ?thesis
      by (intro exI[of _ url] exI[of _ "[AiRun VISION_FALLBACK_MODEL ?req,
              Send (AssistantDone license_failure_text),
              Send (AssistantMsg license_failure_text)]"])
         (simp add: es mv)
  next
    case (Inr fallbackResp)
    obtain d where d: "deliver rt f (extract_fallback_reply rt fallbackResp) = Some d"
      using deliver_total by blast
    with r Inr have post: "onMessage_resume rt ai f = Some (AiRun VISION_FALLBACK_MODEL ?req # d)"
      by simp
    from onMessage_Some[OF assms(1) post] g v Inr deliver_props(3)[OF d] show ?thesis
      by (intro exI[of _ url] exI[of _ "AiRun VISION_FALLBACK_MODEL ?req # d"])
         (simp add: es mv)
  qed
qed

theorem license_failure_fallback_witness:
  "onMessage_begin example_runtime initialState example_image_frame =
     ([SetState \<lparr>messages = [example_image_turn]\<rparr>,
       AiRun VISION_MODEL (request example_image_frame_state)],
      Some example_image_frame_state) \<and>
   attached (imageUrl example_image_frame_state) \<and>
   str_includes (error_message example_runtime
       (ErrorObj (lit ''5016: please submit the prompt 'agree' first''))) license_hint \<and>
   (\<exists>post.
      onMessage example_runtime example_ai_unlicensed initialState example_image_frame =
        Some ([SetState \<lparr>messages = [example_image_turn]\<rparr>,
               AiRun VISION_MODEL (request example_image_frame_state)] @ post) \<and>
      ai_calls ([SetState \<lparr>messages = [example_image_turn]\<rparr>,
                 AiRun VISION_MODEL (request example_image_frame_state)] @ post) =
        [(VISION_MODEL, request example_image_frame_state),
         (VISION_FALLBACK_MODEL,
          PromptRequest
            (system_prompt @ [0x0A, 0x0A] @ lit ''User request: '' @ lit ''Describe this image.'')
            example_image_url)] \<and>
      sent ([SetState \<lparr>messages = [example_image_turn]\<rparr>,
             AiRun VISION_MODEL (request example_image_frame_state)] @ post) =
        [AssistantDone license_failure_text, AssistantMsg license_failure_text] \<and>
      final_state initialState
        ([SetState \<lparr>messages = [example_image_turn]\<rparr>,
          AiRun VISION_MODEL (request example_image_frame_state)] @ post) =
        \<lparr>messages = [example_image_turn]\<rparr>)"
proof -
  let ?payload = "JObject [(lit ''type'', JString (lit ''user'')),
                    (lit ''content'', JString []),
                    (lit ''imageDataUrl'', JString (lit ''data:image/png;base64,AAAA''))]"
  have t: "lit ''type'' \<noteq> lit ''content''" "lit ''type'' \<noteq> lit ''imageDataUrl''"
    "lit ''content'' \<noteq> lit ''imageDataUrl''"
    by (simp_all add: lit_def)
  have c: "get_prop ?payload (lit ''content'') = JString []"
    by (simp add: t t[symmetric])
  have g: "get_prop ?payload (lit ''imageDataUrl'') = JString example_image_url"
    by (simp add: t t[symmetric] example_image_url_def)
  have a: "example_ai_unlicensed (model example_image_frame_state)
             (request example_image_frame_state) =
           Inl (ErrorObj (lit ''5016: please submit the prompt 'agree' first''))"
    by (simp add: example_ai_unlicensed_def)
  have at: "attached (imageUrl example_image_frame_state)"
    by (simp add: attached_def example_image_frame_state_def example_image_url_def lit_def)
  have tr: "trim [] = []" by (simp add: trim_def)
  have fb: "isl (example_ai_unlicensed VISION_FALLBACK_MODEL r)" for r
    by (simp add: example_ai_unlicensed_def)
  have nm: "nextMessages example_image_frame_state = [example_image_turn]"
    by (simp add: example_image_frame_state_def)
  from license_failure_fallback [where ai = example_ai_unlicensed, OF example_begin_image example_parse_image c a at
      example_unlicensed_hint]
  obtain url post where
    u: "get_prop ?payload (lit ''imageDataUrl'') = JString url"
    and rest: "onMessage example_runtime example_ai_unlicensed initialState example_image_frame =
        Some ([SetState \<lparr>messages = [example_image_turn]\<rparr>,
               AiRun VISION_MODEL (request example_image_frame_state)] @ post)"
      "ai_calls ([SetState \<lparr>messages = [example_image_turn]\<rparr>,
                 AiRun VISION_MODEL (request example_image_frame_state)] @ post) =
        [(VISION_MODEL, request example_image_frame_state),
         (VISION_FALLBACK_MODEL,
          PromptRequest
            (system_prompt @ [0x0A, 0x0A] @ lit ''User request: '' @
             (if trim [] \<noteq> [] then trim [] else lit ''Describe this image.''))
            url)]"
      "isl (example_ai_unlicensed VISION_FALLBACK_MODEL
             (PromptRequest
                (system_prompt @ [0x0A, 0x0A] @ lit ''User request: '' @
                 (if trim [] \<noteq> [] then trim [] else lit ''Describe this image.''))
                url)) \<longrightarrow>
       sent ([SetState \<lparr>messages = [example_image_turn]\<rparr>,
              AiRun VISION_MODEL (request example_image_frame_state)] @ post) =
         [AssistantDone license_failure_text, AssistantMsg license_failure_text] \<and>
       final_state initialState
         ([SetState \<lparr>messages = [example_image_turn]\<rparr>,
           AiRun VISION_MODEL (request example_image_frame_state)] @ post) =
         \<lparr>messages = nextMessages example_image_frame_state\<rparr>"
    by blast
  from u g have url: "url = example_image_url" by simp
  from rest fb show ?thesis
    unfolding url tr nm
    using example_begin_image at example_unlicensed_hint
    by (intro conjI exI[of _ post]) simp_all
qed

text \<open>
  C8. A valid \<open>user\<close> message makes exactly one primary call. With a valid image
  attachment the call goes to the vision model. Without one it goes to the text model, a
  different model, and the request is the system instruction followed by the last 12 turns,
  each as its role and its plain text content, whether or not the turn carries an image.
\<close>

theorem model_routing:
  assumes "valid_user_message rt message"
  shows "\<exists>es f.
           onMessage_begin rt st message = (es, Some f) \<and>
           ai_calls es = [(model f, request f)] \<and>
           TEXT_MODEL \<noteq> VISION_MODEL \<and>
           (valid_image_attachment rt message \<longrightarrow> model f = VISION_MODEL) \<and>
           (\<not> valid_image_attachment rt message \<longrightarrow>
              model f = TEXT_MODEL \<and>
              request f =
                ChatRequest
                  (\<lparr>msg_role = SystemRole, msg_content = Plain system_prompt\<rparr> #
                   map (\<lambda>m. \<lparr>msg_role = ChatRole (role m), msg_content = Plain (content m)\<rparr>)
                     (array_slice (- 12) None (nextMessages f)))
                  512)"
proof -
  from assms obtain payload c where
    p: "JSON_parse rt message = Some payload"
      "get_prop payload (lit ''type'') = JString (lit ''user'')"
      "get_prop payload (lit ''content'') = JString c"
      "trim c \<noteq> [] \<or> isImageDataUrl (get_prop payload (lit ''imageDataUrl''))"
    unfolding valid_user_message_iff by blast
  have v: "valid_image_attachment rt message \<longleftrightarrow> attached (attachment_of payload)"
    by (simp add: valid_image_attachment_def p(1) attached_attachment_of)
  have tt: "toTextOnlyMessage = (\<lambda>m. \<lparr>msg_role = ChatRole (role m), msg_content = Plain (content m)\<rparr>)"
    by (rule ext) (simp add: toTextOnlyMessage_def)
  show ?thesis
    unfolding begin_user[OF p] v
    by (simp add: models_distinct primary_request_def tt)
qed

theorem model_routing_witness:
  "valid_user_message example_runtime example_user_frame \<and>
   \<not> valid_image_attachment example_runtime example_user_frame \<and>
   (\<exists>es f. onMessage_begin example_runtime
              \<lparr>messages = [example_image_turn, assistant_turn seven_words]\<rparr>
              example_user_frame = (es, Some f) \<and>
           model f = TEXT_MODEL \<and>
           request f =
             ChatRequest
               [\<lparr>msg_role = SystemRole, msg_content = Plain system_prompt\<rparr>,
                \<lparr>msg_role = ChatRole User, msg_content = Plain (lit ''Describe this image.'')\<rparr>,
                \<lparr>msg_role = ChatRole Assistant, msg_content = Plain seven_words\<rparr>,
                \<lparr>msg_role = ChatRole User, msg_content = Plain (lit ''hello there'')\<rparr>]
               512) \<and>
   valid_user_message example_runtime example_image_frame \<and>
   valid_image_attachment example_runtime example_image_frame \<and>
   (\<exists>es f. onMessage_begin example_runtime initialState example_image_frame = (es, Some f) \<and>
           model f = VISION_MODEL)"
proof -
  let ?st = "\<lparr>messages = [example_image_turn, assistant_turn seven_words]\<rparr>"
  from model_routing [OF example_user_valid, of ?st] example_user_no_attachment
  obtain es f where b: "onMessage_begin example_runtime ?st example_user_frame = (es, Some f)"
    and m: "model f = TEXT_MODEL"
    and r: "request f =
                ChatRequest
                  (\<lparr>msg_role = SystemRole, msg_content = Plain system_prompt\<rparr> #
                   map (\<lambda>m. \<lparr>msg_role = ChatRole (role m), msg_content = Plain (content m)\<rparr>)
                     (array_slice (- 12) None (nextMessages f)))
                  512"
    by blast
  from b have n: "nextMessages f = [example_image_turn, assistant_turn seven_words, example_user_turn]"
    by (auto simp: example_user_begin)
  have r': "request f =
             ChatRequest
               [\<lparr>msg_role = SystemRole, msg_content = Plain system_prompt\<rparr>,
                \<lparr>msg_role = ChatRole User, msg_content = Plain (lit ''Describe this image.'')\<rparr>,
                \<lparr>msg_role = ChatRole Assistant, msg_content = Plain seven_words\<rparr>,
                \<lparr>msg_role = ChatRole User, msg_content = Plain (lit ''hello there'')\<rparr>]
               512"
    unfolding r n
    by (simp add: array_slice_def rel_index_def example_image_turn_def assistant_turn_def
        example_user_turn_def)
  from model_routing [OF example_image_valid_message, of initialState] example_image_attachment
  obtain es2 f2 where b2: "onMessage_begin example_runtime initialState example_image_frame = (es2, Some f2)"
    and m2: "model f2 = VISION_MODEL"
    by blast
  from b m r' b2 m2 example_user_valid example_user_no_attachment
    example_image_valid_message example_image_attachment
  show ?thesis by blast
qed

text \<open>
  C9. When \<^verbatim>\<open>JSON.parse\<close> throws on the frame, the handler returns with an empty log:
  it sends nothing and sets no state.
\<close>

theorem malformed_frame_ignored:
  assumes "JSON_parse rt message = None"
  shows "\<exists>es. onMessage rt ai st message = Some es \<and> es = [] \<and>
              sent es = [] \<and> final_state st es = st"
  using assms by (simp add: onMessage_def onMessage_begin_def)

theorem malformed_frame_ignored_witness:
  "JSON_parse example_runtime (lit ''not json'') = None \<and>
   (\<exists>es. onMessage example_runtime example_ai_ok \<lparr>messages = [example_user_turn]\<rparr>
             (lit ''not json'') = Some es \<and>
         es = [] \<and> sent es = [] \<and>
         final_state \<lparr>messages = [example_user_turn]\<rparr> es = \<lparr>messages = [example_user_turn]\<rparr>)"
  using malformed_frame_ignored [OF example_parse_bad, of example_ai_ok
      "\<lparr>messages = [example_user_turn]\<rparr>"] example_parse_bad
  by simp

text \<open>
  C10. For every text and every positive group size, \<open>chunkByWords\<close> returns, and the
  words of the concatenation of its chunks are the words of the text, in the same order:
  no word is lost, added or moved. The words of a string are its maximal runs of
  non-whitespace characters, \<^verbatim>\<open>split(/\s+/).filter(Boolean)\<close>, as in \<open>chunkByWords\<close>
  itself; when the text has a word, the bare \<^verbatim>\<open>split(/\s+/)\<close> of the concatenation is
  the same words followed by the one empty piece that the trailing space leaves.
\<close>

theorem chunkByWords_preserves_words:
  assumes "0 < n"
  shows "\<exists>chunks. chunkByWords text n = Some chunks \<and>
           words_of (concat chunks) = words_of text \<and>
           (words_of text \<noteq> [] \<longrightarrow> split_ws (concat chunks) = words_of text @ [[]])"
proof (cases "words_of text = []")
  case True
  then show ?thesis by (simp add: chunkByWords_eq[OF assms])
next
  case False
  have good: "\<forall>w\<in>set (words_of text). w \<noteq> [] \<and> (\<forall>c\<in>set w. \<not> is_space c)"
    using words_of_word by blast
  have "concat (map render_group (groups_of n (words_of text))) =
        concat (map (\<lambda>w. w @ [0x20]) (concat (groups_of n (words_of text))))"
    by (rule concat_render_groups) (auto dest: groups_of_nonempty)
  also have "\<dots> = concat (map (\<lambda>w. w @ [0x20]) (words_of text))"
    by (simp add: concat_groups_of[OF assms])
  finally have eq: "concat (map render_group (groups_of n (words_of text))) =
        concat (map (\<lambda>w. w @ [0x20]) (words_of text))" .
  have "words_of (concat (map render_group (groups_of n (words_of text)))) = words_of text"
    unfolding eq using good by (rule words_of_concat)
  moreover have "split_ws (concat (map render_group (groups_of n (words_of text)))) = words_of text @ [[]]"
    unfolding eq using good by (rule split_ws_concat)
  ultimately show ?thesis using False by (simp add: chunkByWords_eq[OF assms])
qed

theorem chunkByWords_preserves_words_witness:
  "0 < (3::nat) \<and>
   (\<exists>chunks. chunkByWords (lit ''one two three four five six seven'') 3 = Some chunks \<and>
      words_of (concat chunks) =
        [lit ''one'', lit ''two'', lit ''three'', lit ''four'', lit ''five'', lit ''six'', lit ''seven''] \<and>
      split_ws (concat chunks) =
        [lit ''one'', lit ''two'', lit ''three'', lit ''four'', lit ''five'', lit ''six'', lit ''seven'', []])"
  using chunkByWords_preserves_words [of 3 "lit ''one two three four five six seven''"]
  by (simp add: words_of_seven)

end
